theory Spec2Isabelle
  imports Complex_Main
begin

section \<open>Tunnel geometry engine (utils/geometry.js)\<close>

text \<open>
  The geometry helpers of the tunnel designer, embedded function by function.
  JavaScript numbers are read as real numbers, as the data model of the
  specification does (``real-valued plane coordinates''): rounding, NaN and
  signed zeros are outside this model.  A value that may be \<open>null\<close> or
  \<open>undefined\<close> is an \<open>option\<close>; arrays are lists; objects are records.
  Record fields cannot be called \<open>x\<close>, \<open>y\<close>, \<open>z\<close> without capturing those
  variable names, so a 2D point has the fields \<open>px\<close>, \<open>py\<close> and a 3D point
  \<open>vx\<close>, \<open>vy\<close>, \<open>vz\<close>.
\<close>

subsection \<open>Data model\<close>

record point2 =
  px :: real
  py :: real

record point3 =
  vx :: real
  vy :: real
  vz :: real

datatype segtype = line | arc

text \<open>A segment object \<open>{type, start, end, radius}\<close>; a line ignores its radius.\<close>

record segment =
  stype :: segtype
  start :: point2
  end' :: point2
  radius :: real

type_synonym ident = string

record profile =
  pid :: ident
  segments :: "segment list"

record profileAssignment =
  alength :: real
  profileId :: "ident option"

record heightAssignment =
  hlength :: real
  height :: real

text \<open>The sampling options; an absent field is \<open>None\<close>.\<close>

record options =
  maxChord :: "real option"
  minArcSteps :: "real option"

record frame =
  xAxis :: point3
  yAxis :: point3
  direction :: point3

record mergedPair =
  angle :: real
  point1 :: point2
  point2 :: point2

text \<open>The object \<open>{...frame, centerA, centerB}\<close> of a section.\<close>

record sectionFrame = frame +
  centerA :: point3
  centerB :: point3

text \<open>The object \<open>{t, point}\<close> returned by \<open>raySegmentIntersection\<close>.\<close>

record hit =
  ht :: real
  hpoint :: point2

record section3D =
  sframe :: sectionFrame
  profile1Points :: "point3 list"
  profile2Points :: "point3 list"

subsection \<open>Numeric primitives of the JavaScript runtime\<close>

definition hypot :: "real \<Rightarrow> real \<Rightarrow> real" where
  "hypot a b = sqrt (a * a + b * b)"

definition hypot3 :: "real \<Rightarrow> real \<Rightarrow> real \<Rightarrow> real" where
  "hypot3 a b c = sqrt (a * a + b * b + c * c)"

text \<open>\<open>Math.atan2(y, x)\<close>: the angle of the point \<open>(x, y)\<close>, in \<open>(-pi, pi]\<close>.\<close>

definition atan2 :: "real \<Rightarrow> real \<Rightarrow> real" where
  "atan2 y x =
     (if 0 < x then arctan (y / x)
      else if x < 0 then (if 0 \<le> y then arctan (y / x) + pi else arctan (y / x) - pi)
      else if 0 < y then pi / 2
      else if y < 0 then - (pi / 2)
      else 0)"

text \<open>The remainder operator \<open>a % b\<close>: the quotient is truncated toward zero.\<close>

definition trunc :: "real \<Rightarrow> int" where
  "trunc q = (if 0 \<le> q then \<lfloor>q\<rfloor> else \<lceil>q\<rceil>)"

definition jsmod :: "real \<Rightarrow> real \<Rightarrow> real" where
  "jsmod a b = a - b * of_int (trunc (a / b))"

text \<open>\<open>v || d\<close> on an optional number: \<open>undefined\<close> and \<open>0\<close> are falsy.\<close>

definition orElse :: "real option \<Rightarrow> real \<Rightarrow> real" where
  "orElse v d = (case v of None \<Rightarrow> d | Some w \<Rightarrow> if w = 0 then d else w)"

subsection \<open>Arc primitives\<close>

definition calculateArcCenter :: "point2 \<Rightarrow> point2 \<Rightarrow> real \<Rightarrow> point2 option" where
  "calculateArcCenter s e r =
     (let R = \<bar>r\<bar> in
      if R = 0 then None
      else
        let dx = px e - px s;
            dy = py e - py s;
            dist = sqrt (dx * dx + dy * dy)
        in if dist > 2 * R \<or> dist = 0 then None
           else
             let midX = (px s + px e) / 2;
                 midY = (py s + py e) / 2;
                 h = sqrt (R * R - (dist / 2) * (dist / 2));
                 perpX = - dy / dist;
                 perpY = dx / dist;
                 sign = (if r \<ge> 0 then 1 else - 1)
             in Some \<lparr>px = midX + sign * h * perpX, py = midY + sign * h * perpY\<rparr>)"

text \<open>
  The block that \<open>getPositionAtLength\<close>, \<open>sampleProfilePoints\<close> and
  \<open>collectSampleLengths\<close> each repeat for an arc with centre \<open>c\<close>:
  \<open>startA\<close> and the signed sweep \<open>angleDiff\<close>.
\<close>

definition startAngle :: "segment \<Rightarrow> point2 \<Rightarrow> real" where
  "startAngle seg c = atan2 (py (start seg) - py c) (px (start seg) - px c)"

definition endAngle :: "segment \<Rightarrow> point2 \<Rightarrow> real" where
  "endAngle seg c = atan2 (py (end' seg) - py c) (px (end' seg) - px c)"

definition angleDiff :: "segment \<Rightarrow> point2 \<Rightarrow> real" where
  "angleDiff seg c =
     (let d0 = endAngle seg c - startAngle seg c;
          d1 = (if radius seg > 0 \<and> d0 < 0 then d0 + 2 * pi else d0)
      in if radius seg < 0 \<and> d1 > 0 then d1 - 2 * pi else d1)"

definition arcPoint :: "point2 \<Rightarrow> real \<Rightarrow> real \<Rightarrow> point2" where
  "arcPoint c R ang = \<lparr>px = px c + R * cos ang, py = py c + R * sin ang\<rparr>"

subsection \<open>Axis sampler\<close>

text \<open>
  The loop of \<open>getPositionAtLength\<close>; \<open>None\<close> when the loop ends without
  returning.
\<close>

fun walkAxis :: "segment list \<Rightarrow> real \<Rightarrow> point2 option" where
  "walkAxis [] remaining = None"
| "walkAxis (seg # rest) remaining =
     (if stype seg = line then
        (let dx = px (end' seg) - px (start seg);
             dy = py (end' seg) - py (start seg);
             L = hypot dx dy
         in if remaining \<le> L then
              (let t = (if L = 0 then 0 else remaining / L)
               in Some \<lparr>px = px (start seg) + dx * t, py = py (start seg) + dy * t\<rparr>)
            else walkAxis rest (remaining - L))
      else if stype seg = arc \<and> radius seg \<noteq> 0 then
        (case calculateArcCenter (start seg) (end' seg) (radius seg) of
           None \<Rightarrow> walkAxis rest remaining
         | Some center \<Rightarrow>
             (let R = \<bar>radius seg\<bar>;
                  arcLen = \<bar>angleDiff seg center\<bar> * R
              in if remaining \<le> arcLen then
                   (let t = (if arcLen = 0 then 0 else remaining / arcLen);
                        ang = startAngle seg center + angleDiff seg center * t
                    in Some (arcPoint center R ang))
                 else walkAxis rest (remaining - arcLen)))
      else walkAxis rest remaining)"

definition getPositionAtLength :: "segment list \<Rightarrow> real \<Rightarrow> point2" where
  "getPositionAtLength axisData len =
     (if axisData = [] then \<lparr>px = 0, py = 0\<rparr>
      else case walkAxis axisData len of
             Some p \<Rightarrow> p
           | None \<Rightarrow> \<lparr>px = px (end' (last axisData)), py = py (end' (last axisData))\<rparr>)"

definition addSegmentLength :: "real \<Rightarrow> segment \<Rightarrow> real" where
  "addSegmentLength acc seg =
     (if stype seg = line then
        acc + hypot (px (end' seg) - px (start seg)) (py (end' seg) - py (start seg))
      else if stype seg = arc \<and> radius seg \<noteq> 0 then
        (let chord = hypot (px (end' seg) - px (start seg)) (py (end' seg) - py (start seg))
         in if chord = 0 then acc
            else acc + \<bar>radius seg\<bar> * (2 * arcsin (min 1 (chord / (2 * \<bar>radius seg\<bar>)))))
      else acc)"

definition computeAxisTotalLength :: "segment list \<Rightarrow> real" where
  "computeAxisTotalLength axisData = foldl addSegmentLength 0 axisData"

text \<open>
  The scan of \<open>getHeightAtLength\<close> over the sorted table from index 1:
  the pair \<open>(chosen, current)\<close> at the end of the loop.
\<close>

fun scanHeights :: "heightAssignment \<Rightarrow> heightAssignment list \<Rightarrow> real
    \<Rightarrow> heightAssignment \<times> heightAssignment option" where
  "scanHeights chosen [] len = (chosen, None)"
| "scanHeights chosen (h # rest) len =
     (if hlength h \<le> len + 1 / 10 ^ 6 then scanHeights h rest len
      else (chosen, Some h))"

text \<open>The two return statements after the loop.\<close>

definition heightFrom :: "heightAssignment \<times> heightAssignment option \<Rightarrow> real \<Rightarrow> real" where
  "heightFrom cc len =
     (case cc of
        (chosen, None) \<Rightarrow> height chosen
      | (chosen, Some current) \<Rightarrow>
          if hlength chosen \<ge> len then height chosen
          else (len - hlength chosen) / (hlength current - hlength chosen)
                 * (height current - height chosen) + height chosen)"

definition getHeightAtLength :: "heightAssignment list \<Rightarrow> real \<Rightarrow> real" where
  "getHeightAtLength heightAssignments len =
     (case sort_key hlength heightAssignments of
        [] \<Rightarrow> 0
      | first # rest \<Rightarrow> heightFrom (scanHeights first rest len) len)"

definition getAxis3DPointsAtLength ::
    "segment list \<Rightarrow> heightAssignment list \<Rightarrow> real \<Rightarrow> point3" where
  "getAxis3DPointsAtLength axisData heightAssignments len =
     (let totalLength = computeAxisTotalLength axisData;
          clamped = max 0 (min len totalLength);
          pos2d = getPositionAtLength axisData clamped;
          h = getHeightAtLength heightAssignments clamped
      in \<lparr>vx = px pos2d, vy = h, vz = py pos2d\<rparr>)"

subsection \<open>Perpendicular frame\<close>

definition normalizeVec3 :: "point3 \<Rightarrow> point3" where
  "normalizeVec3 v =
     (let len = hypot3 (vx v) (vy v) (vz v)
      in if len = 0 then \<lparr>vx = 0, vy = 0, vz = 0\<rparr>
         else \<lparr>vx = vx v / len, vy = vy v / len, vz = vz v / len\<rparr>)"

definition cross :: "point3 \<Rightarrow> point3 \<Rightarrow> point3" where
  "cross a b =
     \<lparr>vx = vy a * vz b - vz a * vy b,
      vy = vz a * vx b - vx a * vz b,
      vz = vx a * vy b - vy a * vx b\<rparr>"

definition dot :: "point3 \<Rightarrow> point3 \<Rightarrow> real" where
  "dot a b = vx a * vx b + vy a * vy b + vz a * vz b"

definition neg3 :: "point3 \<Rightarrow> point3" where
  "neg3 v = \<lparr>vx = - vx v, vy = - vy v, vz = - vz v\<rparr>"

definition flipUp :: "point3 \<Rightarrow> point3 \<Rightarrow> point3 \<Rightarrow> frame" where
  "flipUp xA yA dir =
     (if vy yA < 0 then \<lparr>xAxis = neg3 xA, yAxis = neg3 yA, direction = dir\<rparr>
      else \<lparr>xAxis = xA, yAxis = yA, direction = dir\<rparr>)"

definition buildPerpendicularAxes :: "point3 \<Rightarrow> point3 \<Rightarrow> frame" where
  "buildPerpendicularAxes p1 p2 =
     (let dir = normalizeVec3 \<lparr>vx = vx p2 - vx p1, vy = vy p2 - vy p1, vz = vz p2 - vz p1\<rparr>;
          globalX = \<lparr>vx = 1, vy = 0, vz = 0\<rparr>;
          projLen = dot globalX dir
      in if projLen < 1 / 10 ^ 6 then
           flipUp globalX (normalizeVec3 (cross dir globalX)) dir
         else
           (let xA = normalizeVec3 \<lparr>vx = - vz dir, vy = 0, vz = vx dir\<rparr>;
                yA = normalizeVec3 (cross dir xA)
            in flipUp xA yA dir))"

text \<open>What the frame is built for: three unit vectors, pairwise orthogonal.\<close>

definition orthonormal :: "frame \<Rightarrow> bool" where
  "orthonormal f =
     (dot (xAxis f) (xAxis f) = 1 \<and> dot (yAxis f) (yAxis f) = 1 \<and>
      dot (direction f) (direction f) = 1 \<and> dot (xAxis f) (yAxis f) = 0 \<and>
      dot (xAxis f) (direction f) = 0 \<and> dot (yAxis f) (direction f) = 0)"

subsection \<open>Profile sampler\<close>

text \<open>What one iteration of \<open>segments.forEach\<close> pushes after the first point.\<close>

definition segmentPoints :: "options \<Rightarrow> segment \<Rightarrow> point2 list" where
  "segmentPoints opts seg =
     (if stype seg = line \<or> radius seg = 0 then [\<lparr>px = px (end' seg), py = py (end' seg)\<rparr>]
      else case calculateArcCenter (start seg) (end' seg) (radius seg) of
             None \<Rightarrow> [\<lparr>px = px (end' seg), py = py (end' seg)\<rparr>]
           | Some center \<Rightarrow>
               (let R = \<bar>radius seg\<bar>;
                    arcLength = \<bar>angleDiff seg center\<bar> * R;
                    steps = max (orElse (minArcSteps opts) 4)
                              (of_int \<lceil>arcLength / max (1 / 10) (orElse (maxChord opts) 5)\<rceil>)
                in map (\<lambda>i. arcPoint center R
                            (startAngle seg center + angleDiff seg center * (real i / steps)))
                     [1 ..< Suc (nat \<lfloor>steps\<rfloor>)]))"

text \<open>The points pushed by \<open>segments.forEach\<close>: the first start, then each segment's.\<close>

definition pushSegments :: "segment list \<Rightarrow> options \<Rightarrow> point2 list" where
  "pushSegments segs opts =
     (case segs of
        [] \<Rightarrow> []
      | seg0 # _ \<Rightarrow> \<lparr>px = px (start seg0), py = py (start seg0)\<rparr>
                    # concat (map (segmentPoints opts) segs))"

definition gap :: "point2 list \<Rightarrow> real" where
  "gap pts = hypot (px (hd pts) - px (last pts)) (py (hd pts) - py (last pts))"

definition closeLoop :: "point2 list \<Rightarrow> point2 list" where
  "closeLoop pts =
     (if length pts > 1 then
        (if gap pts > 1 / 10 ^ 6 then pts @ [\<lparr>px = px (hd pts), py = py (hd pts)\<rparr>] else pts)
      else pts)"

definition sampleProfilePoints :: "profile \<Rightarrow> options \<Rightarrow> point2 list" where
  "sampleProfilePoints prof opts =
     (if segments prof = [] then [] else closeLoop (pushSegments (segments prof) opts))"

subsection \<open>Cross-profile merger\<close>

definition raySegmentIntersection :: "point2 \<Rightarrow> point2 \<Rightarrow> point2 \<Rightarrow> point2 \<Rightarrow> hit option" where
  "raySegmentIntersection origin dir a b =
     (let sx = px b - px a;
          sy = py b - py a;
          denom = px dir * sy - py dir * sx
      in if \<bar>denom\<bar> < 1 / 10 ^ 9 then None
         else
           (let t = (px a * sy - py a * sx) / denom;
                u = (px a * py dir - py a * px dir) / denom
            in if t < - (1 / 10 ^ 9) \<or> u < - (1 / 10 ^ 9) \<or> u > 1 + 1 / 10 ^ 9 then None
               else Some \<lparr>ht = t, hpoint = \<lparr>px = px origin + px dir * t,
                                             py = py origin + py dir * t\<rparr>\<rparr>))"

definition pointOnSegment :: "point2 \<Rightarrow> point2 \<Rightarrow> point2 \<Rightarrow> real \<Rightarrow> bool" where
  "pointOnSegment p a b tol =
     (let dx = px b - px a;
          dy = py b - py a;
          lenSq = dx * dx + dy * dy
      in if lenSq < 1 / 10 ^ 12 then hypot (px p - px a) (py p - py a) < tol
         else
           (let t = ((px p - px a) * dx + (py p - py a) * dy) / lenSq
            in if t < - tol \<or> t > 1 + tol then False
               else hypot (px p - (px a + t * dx)) (py p - (py a + t * dy)) < tol))"

definition compute2DCentroid :: "point2 list \<Rightarrow> point2" where
  "compute2DCentroid points =
     (if points = [] then \<lparr>px = 0, py = 0\<rparr>
      else
        (let sumX = foldl (\<lambda>s p. s + px p) 0 points;
             sumY = foldl (\<lambda>s p. s + py p) 0 points;
             n = real (length points)
         in \<lparr>px = sumX / n, py = sumY / n\<rparr>))"

text \<open>One iteration of the search loop of \<open>intersectProfileWithRay\<close>.\<close>

definition betterHit :: "point2 \<Rightarrow> point2 \<Rightarrow> hit option \<Rightarrow> point2 \<times> point2 \<Rightarrow> hit option" where
  "betterHit origin dir best ab =
     (case raySegmentIntersection origin dir (fst ab) (snd ab) of
        None \<Rightarrow> best
      | Some h \<Rightarrow>
          if ht h \<ge> 0 \<and> (case best of None \<Rightarrow> True | Some b \<Rightarrow> ht h < ht b)
          then Some h else best)"

definition intersectProfileWithRay :: "point2 \<Rightarrow> point2 list \<Rightarrow> point2 option" where
  "intersectProfileWithRay targetPoint pts =
     (if pts = [] \<or> (px targetPoint = 0 \<and> py targetPoint = 0) then None
      else
        (let centroid = compute2DCentroid pts;
             mag = hypot (px targetPoint) (py targetPoint)
         in if mag < 1 / 10 ^ 9 then None
            else
              (let dir = \<lparr>px = px targetPoint / mag, py = py targetPoint / mag\<rparr>;
                   origin = centroid;
                   best = foldl (betterHit origin dir) None (zip pts (tl pts))
               in map_option hpoint best)))"

definition normalizeAngle :: "real \<Rightarrow> real" where
  "normalizeAngle ang =
     (let twoPi = 2 * pi;
          a = jsmod ang twoPi
      in if a < 0 then a + twoPi else a)"

text \<open>The closure \<open>collect\<close> of \<open>mergeProfilesByAngle\<close>: what one pass pushes.\<close>

definition collect :: "point2 list \<Rightarrow> point2 list \<Rightarrow> bool \<Rightarrow> mergedPair list" where
  "collect sourcePts otherPts isSourceProfile1 =
     concat (map (\<lambda>pt.
       (let centroid = compute2DCentroid sourcePts;
            rpt = \<lparr>px = px pt - px centroid, py = py pt - py centroid\<rparr>
        in case intersectProfileWithRay rpt otherPts of
             None \<Rightarrow> []
           | Some match \<Rightarrow>
               if isSourceProfile1 then
                 [\<lparr>angle = normalizeAngle (atan2 (py pt) (px pt)), point1 = pt, point2 = match\<rparr>]
               else
                 [\<lparr>angle = normalizeAngle (atan2 (py match) (px match)),
                   point1 = match, point2 = pt\<rparr>])) sourcePts)"

definition mergeProfilesByAngle :: "profile \<Rightarrow> profile \<Rightarrow> options \<Rightarrow> mergedPair list" where
  "mergeProfilesByAngle profile1 profile2 opts =
     (let pts1 = sampleProfilePoints profile1 opts;
          pts2 = sampleProfilePoints profile2 opts
      in sort_key angle (collect pts1 pts2 True @ collect pts2 pts1 False))"

subsection \<open>Length interpolator\<close>

definition findProfile :: "profile list \<Rightarrow> ident option \<Rightarrow> profile option" where
  "findProfile profiles i = find (\<lambda>p. Some (pid p) = i) profiles"

text \<open>The bracketing loop: the first consecutive pair around \<open>len\<close>, if any.\<close>

fun bracket :: "profileAssignment list \<Rightarrow> real \<Rightarrow> (profileAssignment \<times> profileAssignment) option" where
  "bracket (a # b # rest) len =
     (if alength a \<le> len \<and> len \<le> alength b then Some (a, b) else bracket (b # rest) len)"
| "bracket _ len = None"

definition blend :: "real \<Rightarrow> mergedPair \<Rightarrow> point2" where
  "blend t m = \<lparr>px = px (point1 m) * (1 - t) + px (point2 m) * t,
               py = py (point1 m) * (1 - t) + py (point2 m) * t\<rparr>"

definition interpolateProfileAtLength ::
    "real \<Rightarrow> profileAssignment list \<Rightarrow> profile list \<Rightarrow> options \<Rightarrow> bool \<Rightarrow> point2 list option" where
  "interpolateProfileAtLength len0 profileAssignments profiles opts isStart =
     (case sort_key alength profileAssignments of
        [] \<Rightarrow> None
      | first # rest \<Rightarrow>
          (let sorted = first # rest;
               len = (if \<not> isStart then len0 - 1 / 10 ^ 8 else len0);
               lastA = last sorted;
               pn0 = (case bracket sorted len of Some pn \<Rightarrow> pn | None \<Rightarrow> (first, lastA));
               pn1 = (if len < alength first - 1 / 10 ^ 9 then (first, first) else pn0);
               pn2 = (if len > alength lastA + 1 / 10 ^ 9 then (lastA, lastA) else pn1);
               prev = fst pn2;
               next = snd pn2
           in case findProfile profiles (profileId prev) of
                None \<Rightarrow> None
              | Some p1 \<Rightarrow>
                  (case findProfile profiles (profileId next) of
                     None \<Rightarrow> None
                   | Some p2 \<Rightarrow>
                       if alength prev = alength next \<or> profileId prev = profileId next
                       then Some (sampleProfilePoints p1 opts)
                       else
                         (let t = max 0 (min 1 ((len - alength prev) / (alength next - alength prev)));
                              merged = mergeProfilesByAngle p1 p2 opts
                          in if merged = [] then None else Some (map (blend t) merged)))))"

text \<open>
  The length that the bracketing loop and the clamp tests see: \<open>length - 1e-8\<close> when
  \<open>isStart\<close> is false.
\<close>

definition effectiveLength :: "bool \<Rightarrow> real \<Rightarrow> real" where
  "effectiveLength isStart len = (if \<not> isStart then len - 1 / 10 ^ 8 else len)"

subsection \<open>3D sweep builder\<close>

definition projectProfile :: "point3 \<Rightarrow> point2 list \<Rightarrow> frame \<Rightarrow> point3 list" where
  "projectProfile center pts fr =
     map (\<lambda>pt. \<lparr>vx = vx center + vx (xAxis fr) * px pt + vx (yAxis fr) * py pt,
                vy = vy center + vy (xAxis fr) * px pt + vy (yAxis fr) * py pt,
                vz = vz center + vz (xAxis fr) * px pt + vz (yAxis fr) * py pt\<rparr>) pts"

text \<open>\<open>lengthC\<close> may be absent (\<open>None\<close>); \<open>lengthC ? \<dots> : null\<close> is also null at 0.\<close>

definition buildProfileSection3DRange ::
    "segment list \<Rightarrow> heightAssignment list \<Rightarrow> profileAssignment list \<Rightarrow> profile list
     \<Rightarrow> real \<Rightarrow> real \<Rightarrow> real option \<Rightarrow> options \<Rightarrow> section3D option" where
  "buildProfileSection3DRange axisData heightAssignments profileAssignments profiles
       lengthA lengthB lengthC opts =
     (let cA = getAxis3DPointsAtLength axisData heightAssignments lengthA;
          cB = getAxis3DPointsAtLength axisData heightAssignments lengthB;
          cC = (case lengthC of
                  None \<Rightarrow> None
                | Some c \<Rightarrow> if c = 0 then None
                            else Some (getAxis3DPointsAtLength axisData heightAssignments c));
          profileA = interpolateProfileAtLength lengthA profileAssignments profiles opts True;
          profileB = interpolateProfileAtLength lengthB profileAssignments profiles opts False
      in case (profileA, profileB) of
           (Some pa, Some pb) \<Rightarrow>
             if pa = [] \<or> pb = [] then None
             else if length pa \<noteq> length pb then None
             else
               (let fr = buildPerpendicularAxes cA cB;
                    frame1 = map_option (buildPerpendicularAxes cB) cC
                in Some \<lparr>sframe = \<lparr>xAxis = xAxis fr, yAxis = yAxis fr, direction = direction fr,
                                    centerA = cA, centerB = cB\<rparr>,
                         profile1Points = projectProfile cA pa fr,
                         profile2Points = projectProfile cB pb
                                            (case frame1 of Some f \<Rightarrow> f | None \<Rightarrow> fr)\<rparr>)
         | _ \<Rightarrow> None)"

subsection \<open>Valid axes\<close>

text \<open>
  The length that the walk of \<open>getPositionAtLength\<close> consumes for one segment, and
  the axes of the data model: not empty, end-to-start contiguous, and every arc with a
  non-zero radius and a centre.
\<close>

definition segmentLength :: "segment \<Rightarrow> real" where
  "segmentLength seg =
     (if stype seg = line then
        hypot (px (end' seg) - px (start seg)) (py (end' seg) - py (start seg))
      else if radius seg \<noteq> 0 then
        (case calculateArcCenter (start seg) (end' seg) (radius seg) of
           None \<Rightarrow> 0
         | Some c \<Rightarrow> \<bar>angleDiff seg c\<bar> * \<bar>radius seg\<bar>)
      else 0)"

definition nondegenerate :: "segment \<Rightarrow> bool" where
  "nondegenerate seg =
     (stype seg = arc \<longrightarrow>
        radius seg \<noteq> 0 \<and> calculateArcCenter (start seg) (end' seg) (radius seg) \<noteq> None)"

fun contiguous :: "segment list \<Rightarrow> bool" where
  "contiguous (a # b # rest) = (end' a = start b \<and> contiguous (b # rest))"
| "contiguous _ = True"

definition validAxis :: "segment list \<Rightarrow> bool" where
  "validAxis axisData = (axisData \<noteq> [] \<and> list_all nondegenerate axisData \<and> contiguous axisData)"

subsection \<open>Concrete inputs used below\<close>

definition pt :: "real \<Rightarrow> real \<Rightarrow> point2" where
  "pt a b = \<lparr>px = a, py = b\<rparr>"

definition lineSeg :: "point2 \<Rightarrow> point2 \<Rightarrow> segment" where
  "lineSeg a b = \<lparr>stype = line, start = a, end' = b, radius = 0\<rparr>"

definition arcSeg :: "point2 \<Rightarrow> point2 \<Rightarrow> real \<Rightarrow> segment" where
  "arcSeg a b r = \<lparr>stype = arc, start = a, end' = b, radius = r\<rparr>"

definition noOptions :: options where
  "noOptions = \<lparr>maxChord = None, minArcSteps = None\<rparr>"

text \<open>The square and the axis of the test ``builds profile section 3D points''.\<close>

definition squareA :: profile where
  "squareA = \<lparr>pid = ''A'', segments =
     [lineSeg (pt (- 1) (- 1)) (pt 1 (- 1)), lineSeg (pt 1 (- 1)) (pt 1 1),
      lineSeg (pt 1 1) (pt (- 1) 1), lineSeg (pt (- 1) 1) (pt (- 1) (- 1))]\<rparr>"

definition triangleT :: profile where
  "triangleT = \<lparr>pid = ''T'', segments =
     [lineSeg (pt 0 0) (pt 2 0), lineSeg (pt 2 0) (pt 0 2), lineSeg (pt 0 2) (pt 0 0)]\<rparr>"

text \<open>A kite whose sampled points lie on the coordinate axes and average to the origin.\<close>

definition diamondD :: profile where
  "diamondD = \<lparr>pid = ''D'', segments =
     [lineSeg (pt 2 0) (pt 0 3), lineSeg (pt 0 3) (pt (- 4) 0),
      lineSeg (pt (- 4) 0) (pt 0 (- 3)), lineSeg (pt 0 (- 3)) (pt 2 0)]\<rparr>"

definition squarePts :: "point2 list" where
  "squarePts = [pt (- 1) (- 1), pt 1 (- 1), pt 1 1, pt (- 1) 1, pt (- 1) (- 1)]"

definition axis2 :: "segment list" where
  "axis2 = [lineSeg (pt 0 0) (pt 2 0)]"

text \<open>A line followed by a counter-clockwise half circle of radius 1.\<close>

definition axisLA :: "segment list" where
  "axisLA = [lineSeg (pt 3 0) (pt 1 0), arcSeg (pt 1 0) (pt (- 1) 0) 1]"

definition flatHeights :: "heightAssignment list" where
  "flatHeights = [\<lparr>hlength = 0, height = 0\<rparr>]"

text \<open>An unsorted height table and the table of the test ``gets 3D points along axis''.\<close>

definition heights3 :: "heightAssignment list" where
  "heights3 = [\<lparr>hlength = 5, height = 10\<rparr>, \<lparr>hlength = 0, height = 0\<rparr>,
               \<lparr>hlength = 8, height = 4\<rparr>]"

definition heights2 :: "heightAssignment list" where
  "heights2 = [\<lparr>hlength = 0, height = 0\<rparr>, \<lparr>hlength = 5, height = 10\<rparr>]"

text \<open>The profiles and assignments of the tests ``interpolates and clamps''.\<close>

definition lineP1 :: profile where
  "lineP1 = \<lparr>pid = ''P1'', segments = [lineSeg (pt 0 0) (pt 2 0)]\<rparr>"

definition lineP2 :: profile where
  "lineP2 = \<lparr>pid = ''P2'', segments = [lineSeg (pt 0 0) (pt 4 0)]\<rparr>"

definition assign1020 :: "ident \<Rightarrow> ident \<Rightarrow> profileAssignment list" where
  "assign1020 i1 i2 = [\<lparr>alength = 10, profileId = Some i1\<rparr>, \<lparr>alength = 20, profileId = Some i2\<rparr>]"

section \<open>Properties\<close>

subsection \<open>Evaluation of the concrete inputs\<close>

lemmas fixture_defs = pt_def lineSeg_def arcSeg_def noOptions_def squareA_def triangleT_def
  axis2_def flatHeights_def lineP1_def lineP2_def assign1020_def diamondD_def squarePts_def
  heights2_def heights3_def axisLA_def

lemma hypot_0 [simp]: "hypot a 0 = \<bar>a\<bar>" "hypot 0 b = \<bar>b\<bar>"
  by (simp_all add: hypot_def)

lemma sample_squareA: "sampleProfilePoints squareA opts = squarePts"
  by (simp add: sampleProfilePoints_def pushSegments_def segmentPoints_def closeLoop_def gap_def
        hypot_def fixture_defs)

lemma squarePts_length [simp]: "length squarePts = 5" "squarePts \<noteq> []"
  by (simp_all add: squarePts_def)

lemma sample_triangleT:
  "sampleProfilePoints triangleT opts = [pt 0 0, pt 2 0, pt 0 2, pt 0 0]"
  by (simp add: sampleProfilePoints_def pushSegments_def segmentPoints_def closeLoop_def gap_def
        hypot_def fixture_defs)

lemma sample_lineP1:
  "sampleProfilePoints lineP1 opts = [pt 0 0, pt 2 0, pt 0 0]"
  by (simp add: sampleProfilePoints_def pushSegments_def segmentPoints_def closeLoop_def gap_def
        hypot_def fixture_defs)

lemma sample_lineP2:
  "sampleProfilePoints lineP2 opts = [pt 0 0, pt 4 0, pt 0 0]"
  by (simp add: sampleProfilePoints_def pushSegments_def segmentPoints_def closeLoop_def gap_def
        hypot_def fixture_defs)

lemma interpolate_single_start:
  "interpolateProfileAtLength 0 [\<lparr>alength = 0, profileId = Some ''A''\<rparr>] [squareA] opts True
     = Some (sampleProfilePoints squareA opts)"
  by (simp add: interpolateProfileAtLength_def findProfile_def squareA_def)

lemma interpolate_single_end:
  "interpolateProfileAtLength 1 [\<lparr>alength = 0, profileId = Some ''A''\<rparr>] [squareA] opts False
     = Some (sampleProfilePoints squareA opts)"
  by (simp add: interpolateProfileAtLength_def findProfile_def squareA_def)

lemma build_single_defined:
  "buildProfileSection3DRange axis2 flatHeights [\<lparr>alength = 0, profileId = Some ''A''\<rparr>]
      [squareA] 0 1 lc opts \<noteq> None"
  by (cases lc)
     (simp_all add: buildProfileSection3DRange_def interpolate_single_start
        interpolate_single_end sample_squareA Let_def)

lemma interpolate_before_AT:
  "interpolateProfileAtLength (- 5) (assign1020 ''A'' ''T'') [squareA, triangleT] opts True
     = Some (sampleProfilePoints squareA opts)"
  by (simp add: interpolateProfileAtLength_def findProfile_def squareA_def triangleT_def
        assign1020_def)

lemma interpolate_after_AT:
  "interpolateProfileAtLength 50 (assign1020 ''A'' ''T'') [squareA, triangleT] opts False
     = Some (sampleProfilePoints triangleT opts)"
  by (simp add: interpolateProfileAtLength_def findProfile_def squareA_def triangleT_def
        assign1020_def)

lemma sqrt_25 [simp]: "sqrt 25 = 5"
  by (rule real_sqrt_unique) simp_all

lemma sqrt_16_25 [simp]: "sqrt (16 / 25) = 4 / 5"
  by (rule real_sqrt_unique) (simp_all add: power2_eq_square)

subsection \<open>Profile closure\<close>

lemma closeLoop_closed:
  "pts \<noteq> [] \<Longrightarrow> closeLoop pts \<noteq> [] \<and> gap (closeLoop pts) \<le> 1 / 10 ^ 6"
  by (cases pts) (auto simp add: closeLoop_def gap_def hypot_def)

lemma closeLoop_appends:
  "pts \<noteq> [] \<Longrightarrow> gap pts > 1 / 10 ^ 6 \<Longrightarrow> closeLoop pts = pts @ [hd pts]"
  by (cases pts; cases "tl pts") (auto simp add: closeLoop_def gap_def hypot_def)

text \<open>
  C9.  A profile with at least one segment is sampled to a non-empty polyline whose
  first and last points are at most \<open>1e-6\<close> apart; when the points pushed for the
  segments leave a larger gap, a copy of the first point is appended.
\<close>

theorem sampleProfilePoints_closed:
  "segments prof \<noteq> [] \<Longrightarrow>
     sampleProfilePoints prof opts \<noteq> [] \<and>
     gap (sampleProfilePoints prof opts) \<le> 1 / 10 ^ 6 \<and>
     (gap (pushSegments (segments prof) opts) > 1 / 10 ^ 6 \<longrightarrow>
        sampleProfilePoints prof opts
          = pushSegments (segments prof) opts @ [hd (pushSegments (segments prof) opts)])"
proof -
  assume nonempty: "segments prof \<noteq> []"
  have eq: "sampleProfilePoints prof opts = closeLoop (pushSegments (segments prof) opts)"
    using nonempty by (simp add: sampleProfilePoints_def)
  have ne: "pushSegments (segments prof) opts \<noteq> []"
    using nonempty by (cases "segments prof") (simp_all add: pushSegments_def)
  show ?thesis
    unfolding eq using closeLoop_closed [OF ne] closeLoop_appends [OF ne] by blast
qed

theorem sampleProfilePoints_closed_witness:
  "segments lineP1 \<noteq> [] \<and>
   gap (pushSegments (segments lineP1) noOptions) > 1 / 10 ^ 6 \<and>
   sampleProfilePoints lineP1 noOptions = [pt 0 0, pt 2 0, pt 0 0] \<and>
   gap (sampleProfilePoints lineP1 noOptions) \<le> 1 / 10 ^ 6"
proof -
  have s: "segments lineP1 \<noteq> []"
    by (simp add: lineP1_def)
  have g: "gap (pushSegments (segments lineP1) noOptions) > 1 / 10 ^ 6"
    by (simp add: pushSegments_def segmentPoints_def gap_def hypot_def fixture_defs)
  have p: "pushSegments (segments lineP1) noOptions = [pt 0 0, pt 2 0]"
    by (simp add: pushSegments_def segmentPoints_def fixture_defs)
  note closed = sampleProfilePoints_closed [OF s, of noOptions]
  from closed g have e: "sampleProfilePoints lineP1 noOptions = [pt 0 0, pt 2 0, pt 0 0]"
    by (simp add: p)
  from closed have c: "gap (sampleProfilePoints lineP1 noOptions) \<le> 1 / 10 ^ 6"
    by blast
  from s g e c show ?thesis
    by blast
qed

subsection \<open>Ring consistency of the sweep builder\<close>

text \<open>
  C6.  A result of \<open>buildProfileSection3DRange\<close> always has two rings of the same
  point count, which is the common, non-zero point count of the two resolved
  polylines; when a polyline is missing or empty, or the two differ in length, the
  function returns null.
\<close>

theorem buildProfileSection3DRange_ring_consistency:
  "(buildProfileSection3DRange ax hs pas ps la lb lc opts = Some r \<longrightarrow>
      length (profile1Points r) = length (profile2Points r) \<and>
      (\<exists>pa pb. interpolateProfileAtLength la pas ps opts True = Some pa \<and>
               interpolateProfileAtLength lb pas ps opts False = Some pb \<and>
               pa \<noteq> [] \<and> length pa = length pb \<and> length (profile1Points r) = length pa)) \<and>
   ((\<forall>pa pb. interpolateProfileAtLength la pas ps opts True = Some pa \<and>
             interpolateProfileAtLength lb pas ps opts False = Some pb \<longrightarrow>
             pa = [] \<or> pb = [] \<or> length pa \<noteq> length pb) \<longrightarrow>
      buildProfileSection3DRange ax hs pas ps la lb lc opts = None)"
  by (auto simp add: buildProfileSection3DRange_def projectProfile_def Let_def
        split: option.splits if_splits)

theorem buildProfileSection3DRange_ring_consistency_witness:
  "(\<exists>r. buildProfileSection3DRange axis2 flatHeights [\<lparr>alength = 0, profileId = Some ''A''\<rparr>]
            [squareA] 0 1 None noOptions = Some r \<and>
        length (profile1Points r) = length (profile2Points r)) \<and>
   length (the (interpolateProfileAtLength (- 5) (assign1020 ''A'' ''T'') [squareA, triangleT]
                  noOptions True))
     \<noteq> length (the (interpolateProfileAtLength 50 (assign1020 ''A'' ''T'') [squareA, triangleT]
                      noOptions False)) \<and>
   buildProfileSection3DRange axis2 flatHeights (assign1020 ''A'' ''T'') [squareA, triangleT]
      (- 5) 50 None noOptions = None"
proof -
  obtain r where r: "buildProfileSection3DRange axis2 flatHeights
      [\<lparr>alength = 0, profileId = Some ''A''\<rparr>] [squareA] 0 1 None noOptions = Some r"
    using build_single_defined [of None noOptions] by auto
  have eq: "length (profile1Points r) = length (profile2Points r)"
    using buildProfileSection3DRange_ring_consistency
            [where ax = axis2 and hs = flatHeights and ps = "[squareA]" and la = 0 and lb = 1
               and pas = "[\<lparr>alength = 0, profileId = Some ''A''\<rparr>]" and lc = None
               and opts = noOptions and r = r] r
    by blast
  have mismatch: "\<forall>pa pb.
      interpolateProfileAtLength (- 5) (assign1020 ''A'' ''T'') [squareA, triangleT] noOptions True
        = Some pa \<and>
      interpolateProfileAtLength 50 (assign1020 ''A'' ''T'') [squareA, triangleT] noOptions False
        = Some pb \<longrightarrow> pa = [] \<or> pb = [] \<or> length pa \<noteq> length pb"
    by (simp add: interpolate_before_AT interpolate_after_AT sample_squareA sample_triangleT)
  have none: "buildProfileSection3DRange axis2 flatHeights (assign1020 ''A'' ''T'')
      [squareA, triangleT] (- 5) 50 None noOptions = None"
    using buildProfileSection3DRange_ring_consistency
            [where ax = axis2 and hs = flatHeights and ps = "[squareA, triangleT]"
               and la = "- 5" and lb = 50 and pas = "assign1020 ''A'' ''T''" and lc = None
               and opts = noOptions] mismatch
    by blast
  show ?thesis
    using r eq none
    by (simp add: interpolate_before_AT interpolate_after_AT sample_squareA sample_triangleT)
qed

subsection \<open>A zero third length\<close>

text \<open>
  C10.  With \<open>lengthC = 0\<close> the function returns exactly what it returns without
  \<open>lengthC\<close>, and the second ring of a result is the end-of-range polyline projected
  at the centre of \<open>lengthB\<close> with the frame of the direction from \<open>lengthA\<close> to
  \<open>lengthB\<close>.
\<close>

theorem buildProfileSection3DRange_lengthC_zero:
  "buildProfileSection3DRange ax hs pas ps la lb (Some 0) opts
     = buildProfileSection3DRange ax hs pas ps la lb None opts \<and>
   (buildProfileSection3DRange ax hs pas ps la lb (Some 0) opts = Some r \<longrightarrow>
      (\<exists>pb. interpolateProfileAtLength lb pas ps opts False = Some pb \<and>
            profile2Points r
              = projectProfile (getAxis3DPointsAtLength ax hs lb) pb
                  (buildPerpendicularAxes (getAxis3DPointsAtLength ax hs la)
                                          (getAxis3DPointsAtLength ax hs lb))))"
  by (auto simp add: buildProfileSection3DRange_def Let_def split: option.splits if_splits)

theorem buildProfileSection3DRange_lengthC_zero_witness:
  "\<exists>r. buildProfileSection3DRange axis2 flatHeights [\<lparr>alength = 0, profileId = Some ''A''\<rparr>]
          [squareA] 0 1 (Some 0) noOptions = Some r \<and>
       buildProfileSection3DRange axis2 flatHeights [\<lparr>alength = 0, profileId = Some ''A''\<rparr>]
          [squareA] 0 1 None noOptions = Some r \<and>
       profile2Points r
         = projectProfile (getAxis3DPointsAtLength axis2 flatHeights 1)
             (sampleProfilePoints squareA noOptions)
             (buildPerpendicularAxes (getAxis3DPointsAtLength axis2 flatHeights 0)
                                     (getAxis3DPointsAtLength axis2 flatHeights 1))"
proof -
  obtain r where r: "buildProfileSection3DRange axis2 flatHeights
      [\<lparr>alength = 0, profileId = Some ''A''\<rparr>] [squareA] 0 1 (Some 0) noOptions = Some r"
    using build_single_defined [of "Some 0" noOptions] by auto
  note inst = buildProfileSection3DRange_lengthC_zero
         [where ax = axis2 and hs = flatHeights and ps = "[squareA]" and la = 0 and lb = 1
            and pas = "[\<lparr>alength = 0, profileId = Some ''A''\<rparr>]" and opts = noOptions
            and r = r]
  from inst r have same: "buildProfileSection3DRange axis2 flatHeights
      [\<lparr>alength = 0, profileId = Some ''A''\<rparr>] [squareA] 0 1 None noOptions = Some r"
    by simp
  from inst r have ring: "profile2Points r
         = projectProfile (getAxis3DPointsAtLength axis2 flatHeights 1)
             (sampleProfilePoints squareA noOptions)
             (buildPerpendicularAxes (getAxis3DPointsAtLength axis2 flatHeights 0)
                                     (getAxis3DPointsAtLength axis2 flatHeights 1))"
    by (simp add: interpolate_single_end)
  from r same ring show ?thesis by blast
qed

subsection \<open>Degenerate arcs in the total length\<close>

text \<open>
  What one arc adds to the total: nothing for a zero radius or a zero chord, and half
  a circle for a chord longer than twice the radius, although it has no centre.
\<close>

lemma addSegmentLength_zero_radius_or_chord:
  "stype seg = arc \<Longrightarrow> radius seg = 0 \<or> start seg = end' seg \<Longrightarrow>
     addSegmentLength acc seg = acc"
  by (auto simp add: addSegmentLength_def Let_def)

lemma addSegmentLength_oversized_chord:
  assumes "stype seg = arc" and "radius seg \<noteq> 0"
    and "2 * \<bar>radius seg\<bar> < hypot (px (end' seg) - px (start seg)) (py (end' seg) - py (start seg))"
  shows "calculateArcCenter (start seg) (end' seg) (radius seg) = None"
    and "addSegmentLength acc seg = acc + pi * \<bar>radius seg\<bar>"
proof -
  define chord where
    "chord = hypot (px (end' seg) - px (start seg)) (py (end' seg) - py (start seg))"
  have big: "2 * \<bar>radius seg\<bar> < chord" using assms(3) by (simp add: chord_def)
  show "calculateArcCenter (start seg) (end' seg) (radius seg) = None"
    using big by (simp add: calculateArcCenter_def Let_def chord_def hypot_def)
  have rpos: "0 < \<bar>radius seg\<bar>" using assms(2) by simp
  have "1 < chord / (2 * \<bar>radius seg\<bar>)"
    using big rpos by simp
  then have "min 1 (chord / (2 * \<bar>radius seg\<bar>)) = 1" by simp
  moreover have "chord \<noteq> 0" using big rpos by linarith
  ultimately show "addSegmentLength acc seg = acc + pi * \<bar>radius seg\<bar>"
    using assms(1,2) by (simp add: addSegmentLength_def Let_def chord_def [symmetric])
qed

text \<open>
  C4.  An arc from \<open>(0, 0)\<close> to \<open>(4, 0)\<close> of radius 1 has a chord longer than twice
  its radius, so \<open>calculateArcCenter\<close> fails; \<open>computeAxisTotalLength\<close> nevertheless
  counts \<open>pi\<close> for it, while the walk of \<open>getPositionAtLength\<close> skips it.
\<close>

theorem computeAxisTotalLength_oversized_chord:
  "calculateArcCenter (pt 0 0) (pt 4 0) 1 = None \<and>
   computeAxisTotalLength [arcSeg (pt 0 0) (pt 4 0) 1] = pi \<and>
   walkAxis [arcSeg (pt 0 0) (pt 4 0) 1] 1 = None"
  by (simp add: calculateArcCenter_def computeAxisTotalLength_def addSegmentLength_def
        hypot_def fixture_defs)

subsection \<open>The perpendicular frame\<close>

text \<open>
  Where the frame is right: for distinct points whose unit direction has an x
  component of at least \<open>1e-6\<close>, or exactly 0, the frame is orthonormal; the y axis
  never points down.
\<close>

lemma hypot3_sq: "hypot3 a b c * hypot3 a b c = a * a + b * b + c * c"
proof -
  have "0 \<le> a * a + b * b + c * c" by (simp add: add_nonneg_nonneg)
  then show ?thesis
    unfolding hypot3_def by (metis abs_of_nonneg real_sqrt_mult_self)
qed

lemma hypot3_nonneg: "0 \<le> hypot3 a b c"
  by (simp add: hypot3_def add_nonneg_nonneg)

lemma hypot3_unit: "a * a + b * b + c * c = 1 \<Longrightarrow> hypot3 a b c = 1"
  by (simp add: hypot3_def)

lemma normalizeVec3_unit:
  assumes "hypot3 (vx v) (vy v) (vz v) \<noteq> 0"
  shows "dot (normalizeVec3 v) (normalizeVec3 v) = 1"
proof -
  define n where "n = hypot3 (vx v) (vy v) (vz v)"
  have nn: "n * n = vx v * vx v + vy v * vy v + vz v * vz v"
    unfolding n_def by (rule hypot3_sq)
  have n0: "n \<noteq> 0" using assms by (simp add: n_def)
  have "dot (normalizeVec3 v) (normalizeVec3 v)
      = (vx v * vx v + vy v * vy v + vz v * vz v) / (n * n)"
    using n0 by (simp add: normalizeVec3_def dot_def n_def [symmetric] add_divide_distrib)
  also have "\<dots> = 1" unfolding nn [symmetric] using n0 by simp
  finally show ?thesis .
qed

lemma normalizeVec3_id: "dot v v = 1 \<Longrightarrow> normalizeVec3 v = v"
  by (simp add: normalizeVec3_def dot_def hypot3_unit)

lemma direction_unit:
  assumes "(p1 :: point3) \<noteq> p2"
  shows "dot (normalizeVec3 \<lparr>vx = vx p2 - vx p1, vy = vy p2 - vy p1, vz = vz p2 - vz p1\<rparr>)
             (normalizeVec3 \<lparr>vx = vx p2 - vx p1, vy = vy p2 - vy p1, vz = vz p2 - vz p1\<rparr>) = 1"
proof (rule normalizeVec3_unit)
  have "vx p2 - vx p1 \<noteq> 0 \<or> vy p2 - vy p1 \<noteq> 0 \<or> vz p2 - vz p1 \<noteq> 0"
    using assms by (cases p1; cases p2) auto
  then have "0 < (vx p2 - vx p1) * (vx p2 - vx p1) + (vy p2 - vy p1) * (vy p2 - vy p1)
                 + (vz p2 - vz p1) * (vz p2 - vz p1)"
    by (metis add_pos_nonneg add_nonneg_pos zero_le_square not_real_square_gt_zero add_nonneg_nonneg)
  then show "hypot3 (vx \<lparr>vx = vx p2 - vx p1, vy = vy p2 - vy p1, vz = vz p2 - vz p1\<rparr>)
               (vy \<lparr>vx = vx p2 - vx p1, vy = vy p2 - vy p1, vz = vz p2 - vz p1\<rparr>)
               (vz \<lparr>vx = vx p2 - vx p1, vy = vy p2 - vy p1, vz = vz p2 - vz p1\<rparr>) \<noteq> 0"
    by (simp add: hypot3_def)
qed

lemma orthonormal_flipUp:
  assumes "dot xA xA = 1" "dot yA yA = 1" "dot d d = 1" "dot xA yA = 0" "dot xA d = 0" "dot yA d = 0"
  shows "orthonormal (flipUp xA yA d) \<and> 0 \<le> vy (yAxis (flipUp xA yA d))"
  using assms by (simp add: orthonormal_def flipUp_def neg3_def dot_def)


lemma forward_frame:
  assumes u: "dot d d = 1" and fw: "0 < vx d"
  defines "xA \<equiv> normalizeVec3 \<lparr>vx = - vz d, vy = 0, vz = vx d\<rparr>"
  shows "dot xA xA = 1" and "dot (cross d xA) (cross d xA) = 1" and "dot xA (cross d xA) = 0"
    and "dot xA d = 0" and "dot (cross d xA) d = 0"
proof -
  define a where "a = vx d"
  define b where "b = vy d"
  define e where "e = vz d"
  define n where "n = hypot3 (- e) 0 a"
  have abe: "a * a + b * b + e * e = 1"
    using u by (simp add: dot_def a_def b_def e_def)
  have nn: "n * n = a * a + e * e"
    unfolding n_def by (simp add: hypot3_sq)
  have apos: "0 < a" using fw by (simp add: a_def)
  have "0 < a * a + e * e"
    using apos by (intro add_pos_nonneg) simp_all
  then have n0: "n \<noteq> 0" using nn by auto
  have xA: "xA = \<lparr>vx = - e / n, vy = 0, vz = a / n\<rparr>"
    using n0 by (simp add: xA_def normalizeVec3_def n_def a_def e_def Let_def)
  have c: "cross d xA = \<lparr>vx = b * a / n, vy = - (n * n) / n, vz = b * e / n\<rparr>"
    using n0 by (simp add: xA cross_def a_def [symmetric] b_def [symmetric] e_def [symmetric]
                   nn algebra_simps add_divide_distrib diff_divide_distrib)
  have s1: "e * e + a * a = n * n" using nn by simp
  have "dot xA xA = (e * e + a * a) / (n * n)"
    by (simp add: xA dot_def add_divide_distrib)
  also have "\<dots> = (n * n) / (n * n)" by (simp only: s1)
  also have "\<dots> = 1" using n0 by simp
  finally show "dot xA xA = 1" .
  have "dot (cross d xA) (cross d xA)
      = (b * b * (a * a + e * e) + (n * n) * (n * n)) / (n * n)"
    unfolding c by (simp add: dot_def add_divide_distrib algebra_simps)
  also have "\<dots> = (b * b * (n * n) + (n * n) * (n * n)) / (n * n)"
    by (simp only: nn)
  also have "\<dots> = (b * b + n * n) * (n * n) / (n * n)"
    by (simp add: algebra_simps)
  also have "\<dots> = b * b + n * n" using n0 by simp
  also have "\<dots> = 1" using nn abe by simp
  finally show "dot (cross d xA) (cross d xA) = 1" .
  show "dot xA (cross d xA) = 0"
    unfolding c by (simp add: xA dot_def)
  show "dot xA d = 0"
    by (simp add: xA dot_def a_def [symmetric] e_def [symmetric])
  have "dot (cross d xA) d = (b * (a * a + e * e) - b * (n * n)) / n"
    unfolding c using n0
    by (simp add: dot_def a_def [symmetric] b_def [symmetric] e_def [symmetric]
          add_divide_distrib diff_divide_distrib algebra_simps)
  then show "dot (cross d xA) d = 0" by (simp add: nn)
qed


lemma direction_flipUp: "direction (flipUp xA yA d) = d"
  by (simp add: flipUp_def)

lemma direction_buildPerpendicularAxes:
  "direction (buildPerpendicularAxes p1 p2)
     = normalizeVec3 \<lparr>vx = vx p2 - vx p1, vy = vy p2 - vy p1, vz = vz p2 - vz p1\<rparr>"
  by (simp add: buildPerpendicularAxes_def Let_def direction_flipUp)

lemma sideways_frame:
  assumes u: "dot d d = 1" and z: "vx d = 0"
  defines "gx \<equiv> \<lparr>vx = 1, vy = 0, vz = 0\<rparr>"
  shows "dot gx gx = 1" and "dot (cross d gx) (cross d gx) = 1" and "dot gx (cross d gx) = 0"
    and "dot gx d = 0" and "dot (cross d gx) d = 0"
  using u z by (simp_all add: gx_def dot_def cross_def algebra_simps)

lemma buildPerpendicularAxes_orthonormal:
  assumes ne: "(p1 :: point3) \<noteq> p2"
    and fw: "1 / 10 ^ 6 \<le> vx (direction (buildPerpendicularAxes p1 p2))
             \<or> vx (direction (buildPerpendicularAxes p1 p2)) = 0"
  shows "orthonormal (buildPerpendicularAxes p1 p2)
         \<and> 0 \<le> vy (yAxis (buildPerpendicularAxes p1 p2))"
proof -
  define d where "d = normalizeVec3 \<lparr>vx = vx p2 - vx p1, vy = vy p2 - vy p1, vz = vz p2 - vz p1\<rparr>"
  define gx where "gx = \<lparr>vx = 1 :: real, vy = 0, vz = 0\<rparr>"
  have u: "dot d d = 1"
    unfolding d_def using ne by (rule direction_unit)
  have proj: "dot gx d = vx d" by (simp add: dot_def gx_def)
  from fw have fw': "1 / 10 ^ 6 \<le> vx d \<or> vx d = 0"
    by (simp add: direction_buildPerpendicularAxes d_def)
  show ?thesis
  proof (cases "vx d = 0")
    case True
    note s = sideways_frame [OF u True, folded gx_def]
    have n: "normalizeVec3 (cross d gx) = cross d gx"
      using s(2) by (rule normalizeVec3_id)
    have "buildPerpendicularAxes p1 p2 = flipUp gx (cross d gx) d"
      using True by (simp add: buildPerpendicularAxes_def Let_def d_def [symmetric]
                       gx_def [symmetric] proj n)
    then show ?thesis
      using orthonormal_flipUp [OF s(1) s(2) u s(3) s(4) s(5)] by simp
  next
    case False
    with fw' have big: "1 / 10 ^ 6 \<le> vx d" by blast
    then have pos: "0 < vx d" by (simp add: less_le_trans [of 0 "1 / 10 ^ 6"])
    define xA where "xA = normalizeVec3 \<lparr>vx = - vz d, vy = 0, vz = vx d\<rparr>"
    note s = forward_frame [OF u pos, folded xA_def]
    have n: "normalizeVec3 (cross d xA) = cross d xA"
      using s(2) by (rule normalizeVec3_id)
    have "buildPerpendicularAxes p1 p2 = flipUp xA (cross d xA) d"
      using big by (simp add: buildPerpendicularAxes_def Let_def d_def [symmetric]
                      gx_def [symmetric] proj xA_def [symmetric] n not_less [symmetric])
    then show ?thesis
      using orthonormal_flipUp [OF s(1) s(2) u s(3) s(4) s(5)] by simp
  qed
qed


lemma buildPerpendicularAxes_up: "0 \<le> vy (yAxis (buildPerpendicularAxes p1 p2))"
  by (simp add: buildPerpendicularAxes_def Let_def flipUp_def neg3_def)

text \<open>
  C5.  For a direction along negative world x the first branch is taken: from
  \<open>(0, 0, 0)\<close> to \<open>(-1, 0, 0)\<close> the y axis of the frame is the zero vector and the x
  axis is opposite to the direction; from \<open>(0, 0, 0)\<close> to \<open>(-3, 0, 4)\<close> the x axis
  and the direction have the dot product \<open>-3/5\<close>.  Neither frame is orthonormal.
\<close>

theorem buildPerpendicularAxes_negative_x:
  "buildPerpendicularAxes \<lparr>vx = 0, vy = 0, vz = 0\<rparr> \<lparr>vx = - 1, vy = 0, vz = 0\<rparr>
     = \<lparr>xAxis = \<lparr>vx = 1, vy = 0, vz = 0\<rparr>, yAxis = \<lparr>vx = 0, vy = 0, vz = 0\<rparr>,
        direction = \<lparr>vx = - 1, vy = 0, vz = 0\<rparr>\<rparr> \<and>
   \<not> orthonormal
       (buildPerpendicularAxes \<lparr>vx = 0, vy = 0, vz = 0\<rparr> \<lparr>vx = - 1, vy = 0, vz = 0\<rparr>) \<and>
   buildPerpendicularAxes \<lparr>vx = 0, vy = 0, vz = 0\<rparr> \<lparr>vx = - 3, vy = 0, vz = 4\<rparr>
     = \<lparr>xAxis = \<lparr>vx = 1, vy = 0, vz = 0\<rparr>, yAxis = \<lparr>vx = 0, vy = 1, vz = 0\<rparr>,
        direction = \<lparr>vx = - 3 / 5, vy = 0, vz = 4 / 5\<rparr>\<rparr> \<and>
   dot \<lparr>vx = 1, vy = 0, vz = 0\<rparr> \<lparr>vx = - 3 / 5, vy = 0, vz = 4 / 5\<rparr> = - 3 / 5 \<and>
   \<not> orthonormal
       (buildPerpendicularAxes \<lparr>vx = 0, vy = 0, vz = 0\<rparr> \<lparr>vx = - 3, vy = 0, vz = 4\<rparr>)"
  by (simp add: buildPerpendicularAxes_def normalizeVec3_def hypot3_def dot_def cross_def
        flipUp_def neg3_def Let_def orthonormal_def)

subsection \<open>Angles of the merged pairs\<close>

lemma jsmod_nonneg:
  assumes b: "0 < b" and a: "0 \<le> a"
  shows "0 \<le> jsmod a b \<and> jsmod a b < b"
proof -
  have q: "0 \<le> a / b" using a b by simp
  have eq: "jsmod a b = b * (a / b - of_int \<lfloor>a / b\<rfloor>)"
    using b q by (simp add: jsmod_def trunc_def algebra_simps)
  have "0 \<le> a / b - of_int \<lfloor>a / b\<rfloor>" "a / b - of_int \<lfloor>a / b\<rfloor> < 1"
    by linarith+
  then show ?thesis
    unfolding eq using b by (simp add: zero_le_mult_iff)
qed

lemma jsmod_neg:
  assumes b: "0 < b" and a: "a < 0"
  shows "- b < jsmod a b \<and> jsmod a b \<le> 0"
proof -
  have q: "a / b < 0" using a b by (simp add: divide_neg_pos)
  have eq: "jsmod a b = b * (a / b - of_int \<lceil>a / b\<rceil>)"
    using b q by (simp add: jsmod_def trunc_def algebra_simps)
  have lo: "- 1 < a / b - of_int \<lceil>a / b\<rceil>" and hi: "a / b - of_int \<lceil>a / b\<rceil> \<le> 0"
    by linarith+
  have "b * (- 1) < b * (a / b - of_int \<lceil>a / b\<rceil>)"
    using lo b by (rule mult_strict_left_mono)
  moreover have "b * (a / b - of_int \<lceil>a / b\<rceil>) \<le> 0"
    using hi b by (simp add: mult_le_0_iff)
  ultimately show ?thesis
    unfolding eq by simp
qed

lemma normalizeAngle_range: "0 \<le> normalizeAngle a \<and> normalizeAngle a < 2 * pi"
proof (cases "0 \<le> a")
  case True
  from jsmod_nonneg [of "2 * pi" a] True show ?thesis
    by (simp add: normalizeAngle_def Let_def)
next
  case False
  with jsmod_neg [of "2 * pi" a] show ?thesis
    by (auto simp add: normalizeAngle_def Let_def)
qed

lemma collect_angles:
  "m \<in> set (collect src other b) \<Longrightarrow> 0 \<le> angle m \<and> angle m < 2 * pi"
  using normalizeAngle_range
  by (auto simp add: collect_def Let_def split: option.splits if_splits)

text \<open>The kite against the square: the ray cast for the kite's point \<open>(2, 0)\<close>.\<close>

lemma sample_diamondD:
  "sampleProfilePoints diamondD opts = [pt 2 0, pt 0 3, pt (- 4) 0, pt 0 (- 3), pt 2 0]"
  by (simp add: sampleProfilePoints_def pushSegments_def segmentPoints_def closeLoop_def gap_def
        fixture_defs)

lemma centroid_diamond:
  "compute2DCentroid [pt 2 0, pt 0 3, pt (- 4) 0, pt 0 (- 3), pt 2 0] = pt 0 0"
  by (simp add: compute2DCentroid_def pt_def)

lemma centroid_square: "compute2DCentroid squarePts = pt (- (1 / 5)) (- (1 / 5))"
  by (simp add: compute2DCentroid_def squarePts_def pt_def)

lemma ray_square_bottom:
  "raySegmentIntersection (pt (- (1 / 5)) (- (1 / 5))) (pt 1 0) (pt (- 1) (- 1)) (pt 1 (- 1)) = None"
  by (simp add: raySegmentIntersection_def pt_def)

lemma ray_square_right:
  "raySegmentIntersection (pt (- (1 / 5)) (- (1 / 5))) (pt 1 0) (pt 1 (- 1)) (pt 1 1)
     = Some \<lparr>ht = 1, hpoint = pt (4 / 5) (- (1 / 5))\<rparr>"
  by (simp add: raySegmentIntersection_def pt_def)

lemma ray_square_top:
  "raySegmentIntersection (pt (- (1 / 5)) (- (1 / 5))) (pt 1 0) (pt 1 1) (pt (- 1) 1) = None"
  by (simp add: raySegmentIntersection_def pt_def)

lemma ray_square_left:
  "raySegmentIntersection (pt (- (1 / 5)) (- (1 / 5))) (pt 1 0) (pt (- 1) 1) (pt (- 1) (- 1)) = None"
  by (simp add: raySegmentIntersection_def pt_def)

lemma intersect_kite_square:
  "intersectProfileWithRay (pt 2 0) squarePts = Some (pt (4 / 5) (- (1 / 5)))"
proof -
  have dir: "\<lparr>px = px (pt 2 0) / 2, py = py (pt 2 0) / 2\<rparr> = pt 1 0"
    by (simp add: pt_def)
  have mag: "hypot (px (pt 2 0)) (py (pt 2 0)) = 2"
    by (simp add: pt_def)
  have ne: "\<not> (px (pt 2 0) = 0 \<and> py (pt 2 0) = 0)"
    by (simp add: pt_def)
  have sq: "zip squarePts (tl squarePts)
      = [(pt (- 1) (- 1), pt 1 (- 1)), (pt 1 (- 1), pt 1 1), (pt 1 1, pt (- 1) 1),
         (pt (- 1) 1, pt (- 1) (- 1))]"
    by (simp add: squarePts_def)
  have nonempty: "squarePts \<noteq> []"
    by (simp add: squarePts_def)
  show ?thesis
    unfolding intersectProfileWithRay_def centroid_square mag Let_def dir sq
    using ne nonempty
    by (simp add: betterHit_def ray_square_bottom ray_square_right ray_square_top ray_square_left)
qed

lemma angle_of_2_0: "normalizeAngle (atan2 0 2) = 0"
  by (simp add: normalizeAngle_def atan2_def jsmod_def trunc_def)

lemma merged_kite_square:
  "\<lparr>angle = 0, point1 = pt 2 0, point2 = pt (4 / 5) (- (1 / 5))\<rparr>
     \<in> set (mergeProfilesByAngle diamondD squareA opts)"
proof -
  have rpt: "\<lparr>px = px (pt 2 0) - px (pt 0 0), py = py (pt 2 0) - py (pt 0 0)\<rparr> = pt 2 0"
    by (simp add: pt_def)
  have "\<lparr>angle = 0, point1 = pt 2 0, point2 = pt (4 / 5) (- (1 / 5))\<rparr>
          \<in> set (collect (sampleProfilePoints diamondD opts) (sampleProfilePoints squareA opts) True)"
    unfolding collect_def sample_diamondD sample_squareA centroid_diamond Let_def
    by (simp add: rpt intersect_kite_square) (simp add: pt_def angle_of_2_0)
  then show ?thesis
    by (simp add: mergeProfilesByAngle_def Let_def)
qed

text \<open>
  C7.  The list returned by \<open>mergeProfilesByAngle\<close> is sorted non-decreasing by its
  angle field, and every angle lies in \<open>[0, 2 pi)\<close>.
\<close>

theorem mergeProfilesByAngle_sorted_angles:
  "sorted (map angle (mergeProfilesByAngle profile1 profile2 opts)) \<and>
   (\<forall>m \<in> set (mergeProfilesByAngle profile1 profile2 opts). 0 \<le> angle m \<and> angle m < 2 * pi)"
  using collect_angles
  by (auto simp add: mergeProfilesByAngle_def Let_def)

theorem mergeProfilesByAngle_sorted_angles_witness:
  "\<lparr>angle = 0, point1 = pt 2 0, point2 = pt (4 / 5) (- (1 / 5))\<rparr>
     \<in> set (mergeProfilesByAngle diamondD squareA noOptions) \<and>
   sorted (map angle (mergeProfilesByAngle diamondD squareA noOptions)) \<and>
   0 \<le> angle \<lparr>angle = 0, point1 = pt 2 0, point2 = pt (4 / 5) (- (1 / 5))\<rparr> \<and>
   angle \<lparr>angle = 0, point1 = pt 2 0, point2 = pt (4 / 5) (- (1 / 5))\<rparr> < 2 * pi"
  using mergeProfilesByAngle_sorted_angles [of diamondD squareA noOptions]
        merged_kite_square [of noOptions]
  by blast

subsection \<open>The ray of the cross-profile merge\<close>

lemma off_square:
  "filter (\<lambda>(a, b). pointOnSegment (pt (4 / 5) (- (1 / 5))) a b (1 / 10 ^ 6))
     (zip squarePts (tl squarePts)) = []"
  by (simp add: pointOnSegment_def squarePts_def pt_def)

lemma on_square: "pointOnSegment (pt 1 0) (pt 1 (- 1)) (pt 1 1) (1 / 10 ^ 6)"
  by (simp add: pointOnSegment_def pt_def)

text \<open>
  C3.  Merging the kite (polyline A, centroid \<open>(0, 0)\<close>) with the square (polyline B,
  centroid \<open>(-1/5, -1/5)\<close>): for the point \<open>p = (2, 0)\<close> of A the recorded partner is
  \<open>(4/5, -1/5)\<close>, which lies on no segment of B, while the ray from A's centroid
  through \<open>p\<close> meets B at \<open>(1, 0)\<close>.
\<close>

theorem mergeProfilesByAngle_ray_origin:
  "sampleProfilePoints squareA noOptions = squarePts \<and>
   compute2DCentroid (sampleProfilePoints diamondD noOptions) = pt 0 0 \<and>
   compute2DCentroid squarePts = pt (- (1 / 5)) (- (1 / 5)) \<and>
   intersectProfileWithRay (pt 2 0) squarePts = Some (pt (4 / 5) (- (1 / 5))) \<and>
   \<lparr>angle = 0, point1 = pt 2 0, point2 = pt (4 / 5) (- (1 / 5))\<rparr>
     \<in> set (mergeProfilesByAngle diamondD squareA noOptions) \<and>
   filter (\<lambda>(a, b). pointOnSegment (pt (4 / 5) (- (1 / 5))) a b (1 / 10 ^ 6))
     (zip squarePts (tl squarePts)) = [] \<and>
   pointOnSegment (pt 1 0) (pt 1 (- 1)) (pt 1 1) (1 / 10 ^ 6)"
  using sample_squareA [of noOptions] centroid_square intersect_kite_square
        merged_kite_square [of noOptions] off_square on_square
  by (simp add: sample_diamondD centroid_diamond)

subsection \<open>Clamping of the length interpolator\<close>

lemma ray_horizontal:
  "py a = py b \<Longrightarrow> py dir = 0 \<Longrightarrow> raySegmentIntersection origin dir a b = None"
  by (simp add: raySegmentIntersection_def)

lemma intersect_horizontal:
  "py tp = 0 \<Longrightarrow>
     intersectProfileWithRay tp [\<lparr>px = a, py = 0\<rparr>, \<lparr>px = b, py = 0\<rparr>, \<lparr>px = c, py = 0\<rparr>] = None"
  by (simp add: intersectProfileWithRay_def Let_def betterHit_def ray_horizontal)

lemma collect_horizontal:
  "collect [pt a 0, pt b 0, pt c 0] [pt d 0, pt e 0, pt f 0] flag = []"
  by (simp add: collect_def Let_def intersect_horizontal compute2DCentroid_def pt_def)

lemma merge_lines_empty: "mergeProfilesByAngle lineP1 lineP2 opts = []"
  by (simp add: mergeProfilesByAngle_def sample_lineP1 sample_lineP2 collect_horizontal)

lemma find_P1: "findProfile [lineP1, lineP2] (Some ''P1'') = Some lineP1"
  and find_P2: "findProfile [lineP1, lineP2] (Some ''P2'') = Some lineP2"
  by (simp_all add: findProfile_def lineP1_def lineP2_def)

text \<open>
  C2, as stated, fails on the profiles of the repository's own clamping tests: at
  length \<open>-5\<close> the polyline of \<open>P1\<close> is returned, at length 10 the pair
  \<open>(P1, P2)\<close> brackets the length, the merge is empty and the result is null;
  likewise at 50 and 20, also for the end-of-range variant (\<open>isStart = false\<close>).
\<close>

theorem interpolateProfileAtLength_boundary_differs:
  "interpolateProfileAtLength (- 5) (assign1020 ''P1'' ''P2'') [lineP1, lineP2] noOptions True
     = Some [pt 0 0, pt 2 0, pt 0 0] \<and>
   interpolateProfileAtLength 10 (assign1020 ''P1'' ''P2'') [lineP1, lineP2] noOptions True = None \<and>
   interpolateProfileAtLength 50 (assign1020 ''P1'' ''P2'') [lineP1, lineP2] noOptions True
     = Some [pt 0 0, pt 4 0, pt 0 0] \<and>
   interpolateProfileAtLength 20 (assign1020 ''P1'' ''P2'') [lineP1, lineP2] noOptions True = None \<and>
   interpolateProfileAtLength 50 (assign1020 ''P1'' ''P2'') [lineP1, lineP2] noOptions False
     = Some [pt 0 0, pt 4 0, pt 0 0] \<and>
   interpolateProfileAtLength 20 (assign1020 ''P1'' ''P2'') [lineP1, lineP2] noOptions False = None"
  by (simp add: interpolateProfileAtLength_def assign1020_def find_P1 find_P2 Let_def
        merge_lines_empty sample_lineP1 sample_lineP2)

lemma interpolate_below:
  assumes "findProfile ps (Some i1) = Some p1"
    and "effectiveLength isStart len < 10 - 1 / 10 ^ 9"
  shows "interpolateProfileAtLength len (assign1020 i1 i2) ps opts isStart
           = Some (sampleProfilePoints p1 opts)"
  using assms
  by (cases isStart)
     (simp_all add: interpolateProfileAtLength_def assign1020_def effectiveLength_def)

lemma interpolate_above:
  assumes "findProfile ps (Some i2) = Some p2"
    and "20 + 1 / 10 ^ 9 < effectiveLength isStart len"
  shows "interpolateProfileAtLength len (assign1020 i1 i2) ps opts isStart
           = Some (sampleProfilePoints p2 opts)"
  using assms
  by (cases isStart)
     (simp_all add: interpolateProfileAtLength_def assign1020_def effectiveLength_def)

lemma interpolate_between:
  assumes "findProfile ps (Some i1) = Some p1" and "findProfile ps (Some i2) = Some p2"
    and "i1 \<noteq> i2"
    and "10 - 1 / 10 ^ 9 \<le> effectiveLength isStart len"
    and "effectiveLength isStart len \<le> 20 + 1 / 10 ^ 9"
  shows "interpolateProfileAtLength len (assign1020 i1 i2) ps opts isStart
           = (if mergeProfilesByAngle p1 p2 opts = [] then None
              else Some (map (blend (max 0 (min 1 ((effectiveLength isStart len - 10) / 10))))
                           (mergeProfilesByAngle p1 p2 opts)))"
  using assms
  by (cases isStart)
     (auto simp add: interpolateProfileAtLength_def assign1020_def effectiveLength_def Let_def)

text \<open>
  C2, amended.  For the assignments \<open>[(10, P1), (20, P2)]\<close> with both profiles in
  the catalog, let \<open>e\<close> be the effective length: the length itself when \<open>isStart\<close>
  is true, the length minus \<open>1e-8\<close> when it is false.  The result at \<open>-5\<close> is the
  sampled polyline of \<open>P1\<close> and the result at 50 the sampled polyline of \<open>P2\<close>, for
  either \<open>isStart\<close>; more generally every length with \<open>e < 10 - 1e-9\<close> gives the
  sampled polyline of \<open>P1\<close> and every length with \<open>e > 20 + 1e-9\<close> that of \<open>P2\<close>,
  with nothing blended.  For \<open>10 - 1e-9 \<le> e \<le> 20 + 1e-9\<close>, and two different
  profile ids, the pair \<open>(P1, P2)\<close> is used: the result is null when their merge is
  empty, and otherwise the merged pairs blended with \<open>t = clamp((e - 10) / 10, 0, 1)\<close>.
\<close>

theorem interpolateProfileAtLength_clamps:
  "findProfile ps (Some i1) = Some p1 \<Longrightarrow> findProfile ps (Some i2) = Some p2 \<Longrightarrow>
     interpolateProfileAtLength (- 5) (assign1020 i1 i2) ps opts isStart
       = Some (sampleProfilePoints p1 opts) \<and>
     interpolateProfileAtLength 50 (assign1020 i1 i2) ps opts isStart
       = Some (sampleProfilePoints p2 opts) \<and>
     (effectiveLength isStart len < 10 - 1 / 10 ^ 9 \<longrightarrow>
        interpolateProfileAtLength len (assign1020 i1 i2) ps opts isStart
          = Some (sampleProfilePoints p1 opts)) \<and>
     (20 + 1 / 10 ^ 9 < effectiveLength isStart len \<longrightarrow>
        interpolateProfileAtLength len (assign1020 i1 i2) ps opts isStart
          = Some (sampleProfilePoints p2 opts)) \<and>
     (i1 \<noteq> i2 \<and> 10 - 1 / 10 ^ 9 \<le> effectiveLength isStart len
        \<and> effectiveLength isStart len \<le> 20 + 1 / 10 ^ 9 \<longrightarrow>
        interpolateProfileAtLength len (assign1020 i1 i2) ps opts isStart
          = (if mergeProfilesByAngle p1 p2 opts = [] then None
             else Some (map (blend (max 0 (min 1 ((effectiveLength isStart len - 10) / 10))))
                          (mergeProfilesByAngle p1 p2 opts))))"
proof -
  assume f1: "findProfile ps (Some i1) = Some p1" and f2: "findProfile ps (Some i2) = Some p2"
  have low: "effectiveLength isStart (- 5) < 10 - 1 / 10 ^ 9"
    and high: "20 + 1 / 10 ^ 9 < effectiveLength isStart 50"
    by (simp_all add: effectiveLength_def)
  show ?thesis
    using interpolate_below [OF f1 low] interpolate_above [OF f2 high]
      interpolate_below [OF f1, of isStart len] interpolate_above [OF f2, of isStart len]
      interpolate_between [OF f1 f2, of isStart len]
    by blast
qed

theorem interpolateProfileAtLength_clamps_witness:
  "findProfile [lineP1, lineP2] (Some ''P1'') = Some lineP1 \<and>
   findProfile [lineP1, lineP2] (Some ''P2'') = Some lineP2 \<and>
   interpolateProfileAtLength (- 5) (assign1020 ''P1'' ''P2'') [lineP1, lineP2] noOptions False
     = Some [pt 0 0, pt 2 0, pt 0 0] \<and>
   interpolateProfileAtLength 50 (assign1020 ''P1'' ''P2'') [lineP1, lineP2] noOptions False
     = Some [pt 0 0, pt 4 0, pt 0 0] \<and>
   interpolateProfileAtLength 10 (assign1020 ''P1'' ''P2'') [lineP1, lineP2] noOptions False
     = Some [pt 0 0, pt 2 0, pt 0 0] \<and>
   interpolateProfileAtLength (20 + 1 / 10 ^ 8) (assign1020 ''P1'' ''P2'') [lineP1, lineP2]
       noOptions True
     = Some [pt 0 0, pt 4 0, pt 0 0] \<and>
   interpolateProfileAtLength (10 - 1 / 10 ^ 10) (assign1020 ''P1'' ''P2'') [lineP1, lineP2]
       noOptions True = None \<and>
   interpolateProfileAtLength 15 (assign1020 ''P1'' ''P2'') [lineP1, lineP2] noOptions True
     = None"
proof -
  note inst = interpolateProfileAtLength_clamps [OF find_P1 find_P2, where opts = noOptions]
  have ids: "''P1'' \<noteq> ''P2''" by simp
  have a: "interpolateProfileAtLength (- 5) (assign1020 ''P1'' ''P2'') [lineP1, lineP2]
             noOptions False = Some [pt 0 0, pt 2 0, pt 0 0]"
    and b: "interpolateProfileAtLength 50 (assign1020 ''P1'' ''P2'') [lineP1, lineP2]
             noOptions False = Some [pt 0 0, pt 4 0, pt 0 0]"
    using inst [where isStart = False and len = 0] by (simp_all add: sample_lineP1 sample_lineP2)
  have "effectiveLength False 10 < 10 - 1 / 10 ^ 9"
    by (simp add: effectiveLength_def)
  with inst [where isStart = False and len = 10]
  have c: "interpolateProfileAtLength 10 (assign1020 ''P1'' ''P2'') [lineP1, lineP2]
             noOptions False = Some [pt 0 0, pt 2 0, pt 0 0]"
    by (simp add: sample_lineP1)
  have "20 + 1 / 10 ^ 9 < effectiveLength True (20 + 1 / 10 ^ 8)"
    by (simp add: effectiveLength_def)
  with inst [where isStart = True and len = "20 + 1 / 10 ^ 8"]
  have d: "interpolateProfileAtLength (20 + 1 / 10 ^ 8) (assign1020 ''P1'' ''P2'')
             [lineP1, lineP2] noOptions True = Some [pt 0 0, pt 4 0, pt 0 0]"
    by (simp add: sample_lineP2)
  have "10 - 1 / 10 ^ 9 \<le> effectiveLength True (10 - 1 / 10 ^ 10)"
    and "effectiveLength True (10 - 1 / 10 ^ 10) \<le> 20 + 1 / 10 ^ 9"
    by (simp_all add: effectiveLength_def)
  with inst [where isStart = True and len = "10 - 1 / 10 ^ 10"] ids
  have e: "interpolateProfileAtLength (10 - 1 / 10 ^ 10) (assign1020 ''P1'' ''P2'')
             [lineP1, lineP2] noOptions True = None"
    by (simp add: merge_lines_empty)
  have "10 - 1 / 10 ^ 9 \<le> effectiveLength True 15"
    and "effectiveLength True 15 \<le> 20 + 1 / 10 ^ 9"
    by (simp_all add: effectiveLength_def)
  with inst [where isStart = True and len = 15] ids
  have f: "interpolateProfileAtLength 15 (assign1020 ''P1'' ''P2'') [lineP1, lineP2]
             noOptions True = None"
    by (simp add: merge_lines_empty)
  from find_P1 find_P2 a b c d e f show ?thesis by blast
qed

subsection \<open>Height interpolation\<close>

lemma scanHeights_prefix:
  "\<forall>h \<in> set xs. hlength h \<le> len + 1 / 10 ^ 6 \<Longrightarrow>
     scanHeights c (xs @ rest) len = scanHeights (last (c # xs)) rest len"
  by (induction xs arbitrary: c) auto

lemma scanHeights_stop:
  "\<forall>h \<in> set ys. len + 1 / 10 ^ 6 < hlength h \<Longrightarrow>
     scanHeights c ys len = (c, case ys of [] \<Rightarrow> None | y # _ \<Rightarrow> Some y)"
  by (cases ys) auto

lemma getHeightAtLength_split:
  assumes s: "sort_key hlength hs = pre @ post" and ne: "pre \<noteq> []"
    and le: "\<forall>h \<in> set (tl pre). hlength h \<le> len + 1 / 10 ^ 6"
  shows "getHeightAtLength hs len = heightFrom (scanHeights (last pre) post len) len"
proof -
  obtain first rest where pre: "pre = first # rest"
    using ne by (cases pre) auto
  have "scanHeights first (rest @ post) len = scanHeights (last (first # rest)) post len"
    using le pre by (intro scanHeights_prefix) simp
  then show ?thesis
    using s pre by (simp add: getHeightAtLength_def)
qed

lemma sorted_prefix_le:
  assumes "sort_key hlength hs = xs @ a # ys"
  shows "\<forall>h \<in> set xs. hlength h \<le> hlength a"
proof -
  have "sorted (map hlength (sort_key hlength hs))" by simp
  then show ?thesis
    unfolding assms by (auto simp add: sorted_append)
qed

text \<open>
  C8, as stated, fails just below an entry: for the table \<open>[(0, 0), (5, 10)]\<close> and the
  length \<open>4.9999995\<close> the entry at 5 counts as reached (\<open>5 \<le> len + 1e-6\<close>) and its
  height 10 is returned, where the linear interpolation gives \<open>9.999999\<close>.
\<close>

theorem getHeightAtLength_snaps:
  "getHeightAtLength heights2 (49999995 / 10 ^ 7) = 10 \<and>
   getHeightAtLength heights2 (49999995 / 10 ^ 7)
     \<noteq> (49999995 / 10 ^ 7 - 0) / (5 - 0) * (10 - 0) + 0"
  by (simp add: getHeightAtLength_def heightFrom_def heights2_def)

text \<open>
  C8, amended.  The table is sorted by length first.  An empty table gives 0.
  Between two consecutive entries \<open>a\<close>, \<open>b\<close> with \<open>a.length < len\<close> and
  \<open>len + 1e-6 < b.length\<close> the result is the linear interpolation of their heights.
  An entry whose length lies in \<open>[len, len + 1e-6]\<close>, with every later entry above
  \<open>len + 1e-6\<close>, gives its own height.  At or below the first entry (the others above
  \<open>len + 1e-6\<close>) the result is the first height; when no entry is above
  \<open>len + 1e-6\<close> it is the last height.  For \<open>[(0, 0), (5, 10)]\<close> the value at
  \<open>2.5\<close> is 5.
\<close>

theorem getHeightAtLength_interpolates:
  "getHeightAtLength [] len = 0 \<and>
   (sort_key hlength hs = xs @ a # b # ys \<and> hlength a < len \<and> len + 1 / 10 ^ 6 < hlength b \<longrightarrow>
      getHeightAtLength hs len
        = (len - hlength a) / (hlength b - hlength a) * (height b - height a) + height a) \<and>
   (sort_key hlength hs = xs @ a # ys \<and> len \<le> hlength a \<and> hlength a \<le> len + 1 / 10 ^ 6 \<and>
      (\<forall>h \<in> set ys. len + 1 / 10 ^ 6 < hlength h) \<longrightarrow>
      getHeightAtLength hs len = height a) \<and>
   (sort_key hlength hs = a # ys \<and> len \<le> hlength a \<and>
      (\<forall>h \<in> set ys. len + 1 / 10 ^ 6 < hlength h) \<longrightarrow>
      getHeightAtLength hs len = height a) \<and>
   (hs \<noteq> [] \<and> (\<forall>h \<in> set hs. hlength h \<le> len + 1 / 10 ^ 6) \<longrightarrow>
      getHeightAtLength hs len = height (last (sort_key hlength hs))) \<and>
   getHeightAtLength heights2 (5 / 2) = 5"
proof (intro conjI impI)
  show "getHeightAtLength [] len = 0"
    by (simp add: getHeightAtLength_def)
next
  assume h: "sort_key hlength hs = xs @ a # b # ys \<and> hlength a < len
               \<and> len + 1 / 10 ^ 6 < hlength b"
  then have s: "sort_key hlength hs = (xs @ [a]) @ b # ys" by simp
  have "\<forall>h \<in> set xs. hlength h \<le> hlength a"
    using sorted_prefix_le h by blast
  then have le: "\<forall>h \<in> set (tl (xs @ [a])). hlength h \<le> len + 1 / 10 ^ 6"
    using h by (cases xs) auto
  from getHeightAtLength_split [OF s _ le] h
  show "getHeightAtLength hs len
        = (len - hlength a) / (hlength b - hlength a) * (height b - height a) + height a"
    by (simp add: heightFrom_def)
next
  assume h: "sort_key hlength hs = xs @ a # ys \<and> len \<le> hlength a
               \<and> hlength a \<le> len + 1 / 10 ^ 6
               \<and> (\<forall>h \<in> set ys. len + 1 / 10 ^ 6 < hlength h)"
  then have s: "sort_key hlength hs = (xs @ [a]) @ ys" by simp
  have "\<forall>h \<in> set xs. hlength h \<le> hlength a"
    using sorted_prefix_le h by blast
  then have le: "\<forall>h \<in> set (tl (xs @ [a])). hlength h \<le> len + 1 / 10 ^ 6"
    using h by (cases xs) auto
  from getHeightAtLength_split [OF s _ le] h
  show "getHeightAtLength hs len = height a"
    by (simp add: heightFrom_def scanHeights_stop split: list.splits)
next
  assume h: "sort_key hlength hs = a # ys \<and> len \<le> hlength a
               \<and> (\<forall>h \<in> set ys. len + 1 / 10 ^ 6 < hlength h)"
  then have s: "sort_key hlength hs = [a] @ ys" by simp
  from getHeightAtLength_split [OF s] h
  show "getHeightAtLength hs len = height a"
    by (simp add: heightFrom_def scanHeights_stop split: list.splits)
next
  assume h: "hs \<noteq> [] \<and> (\<forall>h \<in> set hs. hlength h \<le> len + 1 / 10 ^ 6)"
  have s: "sort_key hlength hs = sort_key hlength hs @ []" by simp
  have ne: "sort_key hlength hs \<noteq> []"
    using h by (metis length_0_conv length_sort)
  have le: "\<forall>h \<in> set (tl (sort_key hlength hs)). hlength h \<le> len + 1 / 10 ^ 6"
    using h ne by (metis list.set_sel(2) set_sort)
  from getHeightAtLength_split [OF s ne le]
  show "getHeightAtLength hs len = height (last (sort_key hlength hs))"
    by (simp add: heightFrom_def)
next
  show "getHeightAtLength heights2 (5 / 2) = 5"
    by (simp add: getHeightAtLength_def heightFrom_def heights2_def)
qed

lemma sort_heights3:
  "sort_key hlength heights3
     = [\<lparr>hlength = 0, height = 0\<rparr>, \<lparr>hlength = 5, height = 10\<rparr>, \<lparr>hlength = 8, height = 4\<rparr>]"
  by (simp add: heights3_def)

theorem getHeightAtLength_interpolates_witness:
  "sort_key hlength heights3
     = [\<lparr>hlength = 0, height = 0\<rparr>, \<lparr>hlength = 5, height = 10\<rparr>, \<lparr>hlength = 8, height = 4\<rparr>] \<and>
   getHeightAtLength heights3 6 = 8 \<and>
   getHeightAtLength heights3 (49999995 / 10 ^ 7) = 10 \<and>
   getHeightAtLength heights3 (- 1) = 0 \<and>
   getHeightAtLength heights3 9 = 4"
proof -
  note cases = getHeightAtLength_interpolates [where hs = heights3]
  have mid: "getHeightAtLength heights3 6 = 8"
    using cases [where len = 6 and xs = "[\<lparr>hlength = 0, height = 0\<rparr>]"
                   and a = "\<lparr>hlength = 5, height = 10\<rparr>" and b = "\<lparr>hlength = 8, height = 4\<rparr>"
                   and ys = "[]"]
    by (simp add: sort_heights3)
  have snap: "getHeightAtLength heights3 (49999995 / 10 ^ 7) = 10"
    using cases [where len = "49999995 / 10 ^ 7" and xs = "[\<lparr>hlength = 0, height = 0\<rparr>]"
                   and a = "\<lparr>hlength = 5, height = 10\<rparr>"
                   and ys = "[\<lparr>hlength = 8, height = 4\<rparr>]"]
    by (simp add: sort_heights3)
  have low: "getHeightAtLength heights3 (- 1) = 0"
    using cases [where len = "- 1" and a = "\<lparr>hlength = 0, height = 0\<rparr>"
                   and ys = "[\<lparr>hlength = 5, height = 10\<rparr>, \<lparr>hlength = 8, height = 4\<rparr>]"]
    by (simp add: sort_heights3)
  have high: "getHeightAtLength heights3 9 = 4"
    using cases [where len = 9] by (simp add: sort_heights3) (simp add: heights3_def)
  from sort_heights3 mid snap low high show ?thesis by blast
qed

subsection \<open>Angles and arcs\<close>

lemma atan2_range: "- pi < atan2 y x \<and> atan2 y x \<le> pi"
proof -
  have lo: "- (pi / 2) < arctan (y / x)" and hi: "arctan (y / x) < pi / 2"
    by (rule arctan_lbound, rule arctan_ubound)
  have p: "0 < pi" by simp
  consider "0 < x" | "x < 0" "0 \<le> y" | "x < 0" "y < 0" | "x = 0" by linarith
  then show ?thesis
  proof cases
    case 1
    then have "atan2 y x = arctan (y / x)" by (simp add: atan2_def)
    with lo hi p show ?thesis by linarith
  next
    case 2
    then have "y / x \<le> 0" by (simp add: divide_nonneg_neg)
    then have "arctan (y / x) \<le> 0" by simp
    moreover from 2 have "atan2 y x = arctan (y / x) + pi" by (simp add: atan2_def)
    ultimately show ?thesis using lo p by linarith
  next
    case 3
    then have "0 < y / x" by (simp add: divide_neg_neg)
    then have "0 < arctan (y / x)" by simp
    moreover from 3 have "atan2 y x = arctan (y / x) - pi" by (simp add: atan2_def)
    ultimately show ?thesis using hi p by linarith
  next
    case 4
    then have "atan2 y x = pi / 2 \<or> atan2 y x = - (pi / 2) \<or> atan2 y x = 0"
      by (simp add: atan2_def)
    with p show ?thesis by linarith
  qed
qed

lemma sqrt_ratio_pos:
  assumes "x \<noteq> 0"
  shows "sqrt (1 + (y / x)\<^sup>2) = sqrt (x * x + y * y) / \<bar>x\<bar>"
proof -
  have "1 + (y / x)\<^sup>2 = (x * x + y * y) / (x * x)"
    using assms by (simp add: field_simps power2_eq_square)
  then show ?thesis
    by (simp add: real_sqrt_divide)
qed

lemma norm_pos:
  assumes "x \<noteq> 0 \<or> y \<noteq> 0"
  shows "0 < sqrt (x * x + y * y)"
proof -
  have "0 < x * x + y * y"
    using assms by (metis not_sum_squares_lt_zero sum_squares_eq_zero_iff linorder_neqE_linordered_idom)
  then show ?thesis by simp
qed

lemma cos_atan2:
  assumes nz: "x \<noteq> 0 \<or> y \<noteq> 0"
  shows "cos (atan2 y x) = x / sqrt (x * x + y * y)"
proof -
  have n: "0 < sqrt (x * x + y * y)" using nz by (rule norm_pos)
  consider "0 < x" | "x < 0" | "x = 0" by linarith
  then show ?thesis
  proof cases
    case 1
    then show ?thesis
      using n by (simp add: atan2_def cos_arctan sqrt_ratio_pos)
  next
    case 2
    then show ?thesis
      using n by (simp add: atan2_def cos_arctan sqrt_ratio_pos)
  next
    case 3
    then show ?thesis
      using nz by (simp add: atan2_def)
  qed
qed

lemma sin_atan2:
  assumes nz: "x \<noteq> 0 \<or> y \<noteq> 0"
  shows "sin (atan2 y x) = y / sqrt (x * x + y * y)"
proof -
  have n: "0 < sqrt (x * x + y * y)" using nz by (rule norm_pos)
  consider "0 < x" | "x < 0" | "x = 0" by linarith
  then show ?thesis
  proof cases
    case 1
    then show ?thesis
      using n by (simp add: atan2_def sin_arctan sqrt_ratio_pos)
  next
    case 2
    then show ?thesis
      using n by (simp add: atan2_def sin_arctan sqrt_ratio_pos)
  next
    case 3
    then show ?thesis
      using nz by (auto simp add: atan2_def)
  qed
qed


text \<open>The vectors from the centre to the two ends of a non-degenerate arc.\<close>

lemma arc_center_vectors:
  assumes c: "calculateArcCenter s e r = Some c"
  obtains d h sg where
    "r \<noteq> 0" "0 < d" "d \<le> 2 * \<bar>r\<bar>" "0 \<le> h" "sg = (if r \<ge> 0 then 1 else - 1)"
    "d = hypot (px e - px s) (py e - py s)"
    "h * h = r * r - (d / 2) * (d / 2)"
    "px s - px c = - (px e - px s) / 2 + sg * h * (py e - py s) / d"
    "py s - py c = - (py e - py s) / 2 - sg * h * (px e - px s) / d"
    "px e - px c = (px e - px s) / 2 + sg * h * (py e - py s) / d"
    "py e - py c = (py e - py s) / 2 - sg * h * (px e - px s) / d"
proof -
  define dx where "dx = px e - px s"
  define dy where "dy = py e - py s"
  define d where "d = sqrt (dx * dx + dy * dy)"
  define h where "h = sqrt (\<bar>r\<bar> * \<bar>r\<bar> - (d / 2) * (d / 2))"
  define sg :: real where "sg = (if r \<ge> 0 then 1 else - 1)"
  have r: "r \<noteq> 0"
    using c by (auto simp add: calculateArcCenter_def Let_def split: if_splits)
  have d0: "d \<noteq> 0" and d2: "d \<le> 2 * \<bar>r\<bar>"
    using c r by (auto simp add: calculateArcCenter_def Let_def d_def dx_def dy_def split: if_splits)
  have dpos: "0 < d"
    using d0 by (simp add: d_def less_le)
  have cx: "px c = (px s + px e) / 2 + sg * h * (- dy / d)"
    and cy: "py c = (py s + py e) / 2 + sg * h * (dx / d)"
    using c r d0 d2
    by (auto simp add: calculateArcCenter_def Let_def d_def dx_def dy_def h_def sg_def
          split: if_splits)
  have "(d / 2) * (d / 2) \<le> \<bar>r\<bar> * \<bar>r\<bar>"
    using dpos d2 by (intro mult_mono) auto
  then have nn: "0 \<le> \<bar>r\<bar> * \<bar>r\<bar> - (d / 2) * (d / 2)"
    by linarith
  have "h * h = \<bar>\<bar>r\<bar> * \<bar>r\<bar> - (d / 2) * (d / 2)\<bar>"
    unfolding h_def by (rule real_sqrt_mult_self)
  also have "\<dots> = \<bar>r\<bar> * \<bar>r\<bar> - (d / 2) * (d / 2)"
    using nn by (rule abs_of_nonneg)
  finally have "h * h = \<bar>r\<bar> * \<bar>r\<bar> - (d / 2) * (d / 2)" .
  moreover have "\<bar>r\<bar> * \<bar>r\<bar> = r * r" by simp
  ultimately have hh: "h * h = r * r - (d / 2) * (d / 2)"
    by linarith
  have h0: "0 \<le> h"
    unfolding h_def using nn by (rule real_sqrt_ge_zero)
  show thesis
  proof (rule that [of d h sg])
    show "r \<noteq> 0" "0 < d" "d \<le> 2 * \<bar>r\<bar>" "0 \<le> h" "sg = (if r \<ge> 0 then 1 else - 1)"
      "h * h = r * r - (d / 2) * (d / 2)"
      by (fact r dpos d2 h0 sg_def hh)+
    show "d = hypot (px e - px s) (py e - py s)"
      by (simp add: d_def hypot_def dx_def dy_def)
    show "px s - px c = - (px e - px s) / 2 + sg * h * (py e - py s) / d"
      "py s - py c = - (py e - py s) / 2 - sg * h * (px e - px s) / d"
      "px e - px c = (px e - px s) / 2 + sg * h * (py e - py s) / d"
      "py e - py c = (py e - py s) / 2 - sg * h * (px e - px s) / d"
      using dpos by (simp_all add: cx cy dx_def dy_def field_simps)
  qed
qed


lemma arc_products:
  assumes c: "calculateArcCenter s e r = Some c"
  defines "a1 \<equiv> px s - px c" and "a2 \<equiv> py s - py c"
    and "b1 \<equiv> px e - px c" and "b2 \<equiv> py e - py c"
    and "d \<equiv> hypot (px e - px s) (py e - py s)"
  shows "a1 * a1 + a2 * a2 = r * r"
    and "b1 * b1 + b2 * b2 = r * r"
    and "a1 * b1 + a2 * b2 = r * r - d * d / 2"
    and "0 < r \<Longrightarrow> 0 \<le> a1 * b2 - a2 * b1"
    and "r < 0 \<Longrightarrow> a1 * b2 - a2 * b1 \<le> 0"
    and "r \<noteq> 0" and "0 < d" and "d \<le> 2 * \<bar>r\<bar>"
proof -
  from c obtain d' h sg where f:
    "r \<noteq> 0" "0 < d'" "d' \<le> 2 * \<bar>r\<bar>" "0 \<le> h" "sg = (if r \<ge> 0 then 1 else - 1)"
    "d' = hypot (px e - px s) (py e - py s)"
    "h * h = r * r - (d' / 2) * (d' / 2)"
    "px s - px c = - (px e - px s) / 2 + sg * h * (py e - py s) / d'"
    "py s - py c = - (py e - py s) / 2 - sg * h * (px e - px s) / d'"
    "px e - px c = (px e - px s) / 2 + sg * h * (py e - py s) / d'"
    "py e - py c = (py e - py s) / 2 - sg * h * (px e - px s) / d'"
    by (rule arc_center_vectors)
  have dd': "d' = d" using f(6) by (simp add: d_def)
  define dx where "dx = px e - px s"
  define dy where "dy = py e - py s"
  define A where "A = sg * h / d"
  have dpos: "0 < d" using f(2) dd' by simp
  have sq: "d * d = dx * dx + dy * dy"
  proof -
    have "0 \<le> dx * dx + dy * dy" by simp
    then show ?thesis
      unfolding d_def hypot_def dx_def [symmetric] dy_def [symmetric]
      by (metis abs_of_nonneg real_sqrt_mult_self)
  qed
  have sg2: "sg * sg = 1" using f(5) by simp
  have AA: "A * A * (d * d) = h * h"
    using dpos sg2 by (simp add: A_def field_simps)
  have hh: "h * h = r * r - d * d / 4"
    using f(7) dd' by (simp add: field_simps)
  have a1: "a1 = - dx / 2 + A * dy" and a2: "a2 = - dy / 2 - A * dx"
    and b1: "b1 = dx / 2 + A * dy" and b2: "b2 = dy / 2 - A * dx"
    using f(8-11) dd' by (simp_all add: a1_def a2_def b1_def b2_def dx_def dy_def A_def)
  have "a1 * a1 + a2 * a2 = (dx * dx + dy * dy) / 4 + A * A * (dx * dx + dy * dy)"
    unfolding a1 a2 by (simp add: algebra_simps)
  also have "\<dots> = d * d / 4 + h * h"
    using AA sq by simp
  finally show "a1 * a1 + a2 * a2 = r * r"
    using hh by simp
  have "b1 * b1 + b2 * b2 = (dx * dx + dy * dy) / 4 + A * A * (dx * dx + dy * dy)"
    unfolding b1 b2 by (simp add: algebra_simps)
  also have "\<dots> = d * d / 4 + h * h"
    using AA sq by simp
  finally show "b1 * b1 + b2 * b2 = r * r"
    using hh by simp
  have "a1 * b1 + a2 * b2 = A * A * (dx * dx + dy * dy) - (dx * dx + dy * dy) / 4"
    unfolding a1 a2 b1 b2 by (simp add: algebra_simps)
  also have "\<dots> = h * h - d * d / 4"
    using AA sq by simp
  finally show "a1 * b1 + a2 * b2 = r * r - d * d / 2"
    using hh by simp
  have "a1 * b2 - a2 * b1 = A * (dx * dx + dy * dy)"
    unfolding a1 a2 b1 b2 by (simp add: algebra_simps)
  also have "\<dots> = sg * h * d"
    using dpos sq [symmetric] by (simp add: A_def)
  finally have cr: "a1 * b2 - a2 * b1 = sg * h * d" .
  show "0 \<le> a1 * b2 - a2 * b1" if "0 < r"
    using that f(4,5) dpos by (simp add: cr)
  show "a1 * b2 - a2 * b1 \<le> 0" if "r < 0"
    using that f(4,5) dpos by (simp add: cr mult_le_0_iff)
  show "r \<noteq> 0" "0 < d" "d \<le> 2 * \<bar>r\<bar>"
    using f(1,3) dpos dd' by simp_all
qed


lemma polar_atan2:
  assumes R: "0 < R" and a: "a1 * a1 + a2 * a2 = R * R"
  shows "R * cos (atan2 a2 a1) = a1" and "R * sin (atan2 a2 a1) = a2"
proof -
  have nz: "a1 \<noteq> 0 \<or> a2 \<noteq> 0"
    using R a by auto
  have "sqrt (a1 * a1 + a2 * a2) = R"
    using R a by simp
  then show "R * cos (atan2 a2 a1) = a1" and "R * sin (atan2 a2 a1) = a2"
    using R by (simp_all add: cos_atan2 [OF nz] sin_atan2 [OF nz])
qed

lemma sweep_trig:
  assumes R: "0 < R" and a: "a1 * a1 + a2 * a2 = R * R" and b: "b1 * b1 + b2 * b2 = R * R"
  shows "R * R * cos (atan2 b2 b1 - atan2 a2 a1) = a1 * b1 + a2 * b2"
    and "R * R * sin (atan2 b2 b1 - atan2 a2 a1) = a1 * b2 - a2 * b1"
proof -
  note pa = polar_atan2 [OF R a] and pb = polar_atan2 [OF R b]
  have "R * R * cos (atan2 b2 b1 - atan2 a2 a1)
      = (R * cos (atan2 b2 b1)) * (R * cos (atan2 a2 a1))
        + (R * sin (atan2 b2 b1)) * (R * sin (atan2 a2 a1))"
    by (simp add: cos_diff algebra_simps)
  then show "R * R * cos (atan2 b2 b1 - atan2 a2 a1) = a1 * b1 + a2 * b2"
    by (simp add: pa pb algebra_simps)
  have "R * R * sin (atan2 b2 b1 - atan2 a2 a1)
      = (R * sin (atan2 b2 b1)) * (R * cos (atan2 a2 a1))
        - (R * cos (atan2 b2 b1)) * (R * sin (atan2 a2 a1))"
    by (simp add: sin_diff algebra_simps)
  then show "R * R * sin (atan2 b2 b1 - atan2 a2 a1) = a1 * b2 - a2 * b1"
    by (simp add: pa pb algebra_simps)
qed

lemma sin_nonneg_le_pi:
  assumes "0 \<le> x" "x < 2 * pi" "0 \<le> sin x"
  shows "x \<le> pi"
proof (rule ccontr)
  assume "\<not> x \<le> pi"
  then have "sin x < 0" using assms(2) by (intro sin_lt_zero) auto
  with assms(3) show False by simp
qed


lemma cos_minus_2pi: "cos (x - 2 * pi) = cos x"
  using cos_periodic [of "x - 2 * pi"] by simp

lemma sin_minus_2pi: "sin (x - 2 * pi) = sin x"
  using sin_periodic [of "x - 2 * pi"] by simp

lemma arc_sweep:
  assumes c: "calculateArcCenter (start seg) (end' seg) (radius seg) = Some c"
  defines "R \<equiv> \<bar>radius seg\<bar>"
    and "d \<equiv> hypot (px (end' seg) - px (start seg)) (py (end' seg) - py (start seg))"
  shows "\<bar>angleDiff seg c\<bar> \<le> pi"
    and "R * R * cos (angleDiff seg c) = R * R - d * d / 2"
    and "arcPoint c R (startAngle seg c) = start seg"
    and "arcPoint c R (startAngle seg c + angleDiff seg c) = end' seg"
proof -
  define a1 where "a1 = px (start seg) - px c"
  define a2 where "a2 = py (start seg) - py c"
  define b1 where "b1 = px (end' seg) - px c"
  define b2 where "b2 = py (end' seg) - py c"
  define raw where "raw = endAngle seg c - startAngle seg c"
  note p = arc_products [OF c, folded a1_def a2_def b1_def b2_def d_def]
  have Rpos: "0 < R" using p(6) by (simp add: R_def)
  have RR: "R * R = radius seg * radius seg" by (simp add: R_def)
  have a: "a1 * a1 + a2 * a2 = R * R" and b: "b1 * b1 + b2 * b2 = R * R"
    using p(1,2) RR by simp_all
  have sa: "startAngle seg c = atan2 a2 a1" and ea: "endAngle seg c = atan2 b2 b1"
    by (simp_all add: startAngle_def endAngle_def a1_def a2_def b1_def b2_def)
  have cosraw: "R * R * cos raw = R * R - d * d / 2"
    and sinraw: "R * R * sin raw = a1 * b2 - a2 * b1"
    using sweep_trig [OF Rpos a b] p(3) RR by (simp_all add: raw_def sa ea)
  have rawlo: "- (2 * pi) < raw" and rawhi: "raw < 2 * pi"
    using atan2_range [of a2 a1] atan2_range [of b2 b1] by (simp_all add: raw_def sa ea)
  have RRpos: "0 < R * R" using Rpos by simp
  consider (pos) "0 < radius seg" | (neg) "radius seg < 0"
    using p(6) by linarith
  then have main: "\<bar>angleDiff seg c\<bar> \<le> pi \<and>
      (angleDiff seg c = raw \<or> angleDiff seg c = raw + 2 * pi \<or> angleDiff seg c = raw - 2 * pi)"
  proof cases
    case pos
    have "0 \<le> R * R * sin raw" using p(4) [OF pos] sinraw by simp
    then have s: "0 \<le> sin raw" using RRpos by (metis zero_le_mult_iff not_less)
    show ?thesis
    proof (cases "raw < 0")
      case True
      then have th: "angleDiff seg c = raw + 2 * pi"
        using pos by (simp add: angleDiff_def raw_def Let_def)
      have "raw + 2 * pi \<le> pi"
        using rawlo True s by (intro sin_nonneg_le_pi) auto
      with th rawlo show ?thesis by auto
    next
      case False
      then have th: "angleDiff seg c = raw"
        using pos by (simp add: angleDiff_def raw_def Let_def)
      have "raw \<le> pi"
        using rawhi False s by (intro sin_nonneg_le_pi) auto
      with th False show ?thesis by auto
    qed
  next
    case neg
    have "R * R * sin raw \<le> 0" using p(5) [OF neg] sinraw by simp
    then have s: "sin raw \<le> 0" using RRpos by (metis mult_le_0_iff not_less)
    show ?thesis
    proof (cases "raw > 0")
      case True
      then have th: "angleDiff seg c = raw - 2 * pi"
        using neg by (simp add: angleDiff_def raw_def Let_def)
      have "2 * pi - raw \<le> pi"
        using rawhi True s by (intro sin_nonneg_le_pi) auto
      with th rawhi show ?thesis by auto
    next
      case False
      then have th: "angleDiff seg c = raw"
        using neg by (simp add: angleDiff_def raw_def Let_def)
      have "- raw \<le> pi"
        using rawlo False s by (intro sin_nonneg_le_pi) auto
      with th False show ?thesis by auto
    qed
  qed
  from main show "\<bar>angleDiff seg c\<bar> \<le> pi" by blast
  from main have cs: "cos (angleDiff seg c) = cos raw" and sn: "sin (angleDiff seg c) = sin raw"
    by (auto simp add: cos_minus_2pi sin_minus_2pi)
  show "R * R * cos (angleDiff seg c) = R * R - d * d / 2"
    using cosraw cs by simp
  have pa: "R * cos (startAngle seg c) = a1" "R * sin (startAngle seg c) = a2"
    using polar_atan2 [OF Rpos a] by (simp_all add: sa)
  have pb: "R * cos (endAngle seg c) = b1" "R * sin (endAngle seg c) = b2"
    using polar_atan2 [OF Rpos b] by (simp_all add: ea)
  show "arcPoint c R (startAngle seg c) = start seg"
    by (simp add: arcPoint_def pa a1_def a2_def)
  have "startAngle seg c + angleDiff seg c = endAngle seg c
        \<or> startAngle seg c + angleDiff seg c = endAngle seg c + 2 * pi
        \<or> startAngle seg c + angleDiff seg c = endAngle seg c - 2 * pi"
    using main by (auto simp add: raw_def)
  then have "cos (startAngle seg c + angleDiff seg c) = cos (endAngle seg c)"
    and "sin (startAngle seg c + angleDiff seg c) = sin (endAngle seg c)"
    by (auto simp add: cos_minus_2pi sin_minus_2pi)
  then show "arcPoint c R (startAngle seg c + angleDiff seg c) = end' seg"
    by (simp add: arcPoint_def pb b1_def b2_def)
qed


lemma arc_length:
  assumes c: "calculateArcCenter (start seg) (end' seg) (radius seg) = Some c"
  defines "R \<equiv> \<bar>radius seg\<bar>"
    and "d \<equiv> hypot (px (end' seg) - px (start seg)) (py (end' seg) - py (start seg))"
  shows "\<bar>angleDiff seg c\<bar> * R = R * (2 * arcsin (min 1 (d / (2 * R))))"
    and "0 < \<bar>angleDiff seg c\<bar> * R"
proof -
  define phi where "phi = \<bar>angleDiff seg c\<bar> / 2"
  note sw = arc_sweep [OF c, folded R_def d_def]
  note p = arc_products [OF c, folded d_def]
  have Rpos: "0 < R" using p(6) by (simp add: R_def)
  have dpos: "0 < d" by (rule p(7))
  have phi0: "0 \<le> phi" and phi1: "phi \<le> pi / 2"
    using sw(1) by (simp_all add: phi_def)
  have "cos (angleDiff seg c) = cos \<bar>angleDiff seg c\<bar>"
    by (simp add: abs_if)
  also have "\<dots> = cos (2 * phi)" by (simp add: phi_def)
  also have "\<dots> = 1 - 2 * (sin phi)\<^sup>2" by (rule cos_double_sin)
  finally have "R * R * (1 - 2 * (sin phi)\<^sup>2) = R * R - d * d / 2"
    using sw(2) by simp
  then have "(R * sin phi)\<^sup>2 = (d / 2)\<^sup>2"
    by (simp add: power2_eq_square algebra_simps)
  moreover have "0 \<le> R * sin phi"
    using Rpos phi0 phi1 by (intro mult_nonneg_nonneg sin_ge_zero) auto
  moreover have "0 \<le> d / 2" using dpos by simp
  ultimately have "R * sin phi = d / 2"
    by (simp add: power2_eq_iff_nonneg)
  then have sinphi: "sin phi = d / (2 * R)"
    using Rpos by (simp add: field_simps)
  have "d / (2 * R) \<le> 1"
    using sinphi sin_le_one [of phi] by simp
  then have "arcsin (min 1 (d / (2 * R))) = arcsin (sin phi)"
    using sinphi by (simp add: min_def)
  also have "\<dots> = phi"
    using phi0 phi1 by (intro arcsin_sin) auto
  finally show "\<bar>angleDiff seg c\<bar> * R = R * (2 * arcsin (min 1 (d / (2 * R))))"
    by (simp add: phi_def)
  have "phi \<noteq> 0"
  proof
    assume "phi = 0"
    then have "d / (2 * R) = 0" using sinphi by simp
    then show False using dpos Rpos by simp
  qed
  then have "0 < \<bar>angleDiff seg c\<bar>" by (simp add: phi_def)
  then show "0 < \<bar>angleDiff seg c\<bar> * R" using Rpos by simp
qed

subsection \<open>The walk along a valid axis\<close>

lemma hypot_nonneg: "0 \<le> hypot a b"
  by (simp add: hypot_def)

lemma hypot_eq_0: "hypot a b = 0 \<longleftrightarrow> a = 0 \<and> b = 0"
  by (simp add: hypot_def sum_squares_eq_zero_iff)

lemma segmentLength_nonneg: "0 \<le> segmentLength seg"
  by (simp add: segmentLength_def hypot_nonneg split: option.splits)

lemma stype_cases: "stype seg \<noteq> line \<longleftrightarrow> stype seg = arc"
  by (cases "stype seg") simp_all

lemma walkAxis_skip:
  assumes "nondegenerate seg" and "segmentLength seg < remaining"
  shows "walkAxis (seg # rest) remaining = walkAxis rest (remaining - segmentLength seg)"
  using assms
  by (auto simp add: nondegenerate_def segmentLength_def stype_cases Let_def split: option.splits)

lemma walkAxis_start:
  assumes nd: "nondegenerate seg"
  shows "walkAxis (seg # rest) 0 = Some (start seg)"
proof (cases "stype seg")
  case line
  then show ?thesis by (simp add: Let_def hypot_nonneg)
next
  case arc
  with nd obtain c where c: "calculateArcCenter (start seg) (end' seg) (radius seg) = Some c"
    and r: "radius seg \<noteq> 0"
    by (auto simp add: nondegenerate_def)
  from arc_sweep(3) [OF c] arc r c show ?thesis
    by (simp add: Let_def)
qed

lemma walkAxis_end:
  assumes nd: "nondegenerate seg"
  shows "walkAxis (seg # rest) (segmentLength seg) = Some (end' seg)"
proof (cases "stype seg")
  case line
  show ?thesis
  proof (cases "segmentLength seg = 0")
    case True
    then have "px (end' seg) = px (start seg)" "py (end' seg) = py (start seg)"
      using line by (simp_all add: segmentLength_def hypot_eq_0)
    then show ?thesis
      using line True by (simp add: segmentLength_def Let_def)
  next
    case False
    then show ?thesis
      using line by (simp add: segmentLength_def Let_def)
  qed
next
  case arc
  with nd obtain c where c: "calculateArcCenter (start seg) (end' seg) (radius seg) = Some c"
    and r: "radius seg \<noteq> 0"
    by (auto simp add: nondegenerate_def)
  have len: "segmentLength seg = \<bar>angleDiff seg c\<bar> * \<bar>radius seg\<bar>"
    using arc r c by (simp add: segmentLength_def)
  from arc_length(2) [OF c] have pos: "\<bar>angleDiff seg c\<bar> * \<bar>radius seg\<bar> \<noteq> 0"
    by (metis less_irrefl)
  from arc_sweep(4) [OF c] show ?thesis
    using arc r c pos by (simp add: len Let_def)
qed

lemma addSegmentLength_nondegenerate:
  assumes nd: "nondegenerate seg"
  shows "addSegmentLength acc seg = acc + segmentLength seg"
proof (cases "stype seg")
  case line
  then show ?thesis by (simp add: addSegmentLength_def segmentLength_def)
next
  case arc
  with nd obtain c where c: "calculateArcCenter (start seg) (end' seg) (radius seg) = Some c"
    and r: "radius seg \<noteq> 0"
    by (auto simp add: nondegenerate_def)
  from arc_products(7) [OF c]
  have chord: "hypot (px (end' seg) - px (start seg)) (py (end' seg) - py (start seg)) \<noteq> 0"
    by (metis less_irrefl)
  from arc_length(1) [OF c] show ?thesis
    using arc r c chord by (simp add: addSegmentLength_def segmentLength_def Let_def)
qed

lemma foldl_addSegmentLength:
  "list_all nondegenerate segs \<Longrightarrow>
     foldl addSegmentLength acc segs = acc + sum_list (map segmentLength segs)"
  by (induction segs arbitrary: acc) (simp_all add: addSegmentLength_nondegenerate)

lemma computeAxisTotalLength_sum:
  "list_all nondegenerate segs \<Longrightarrow>
     computeAxisTotalLength segs = sum_list (map segmentLength segs)"
  by (simp add: computeAxisTotalLength_def foldl_addSegmentLength)

lemma zero_length_segment:
  assumes nd: "nondegenerate seg" and z: "segmentLength seg = 0"
  shows "start seg = end' seg"
proof (cases "stype seg")
  case line
  with z have "px (end' seg) = px (start seg)" "py (end' seg) = py (start seg)"
    by (simp_all add: segmentLength_def hypot_eq_0)
  then show ?thesis by simp
next
  case arc
  with nd obtain c where c: "calculateArcCenter (start seg) (end' seg) (radius seg) = Some c"
    and r: "radius seg \<noteq> 0"
    by (auto simp add: nondegenerate_def)
  from arc_length(2) [OF c] z show ?thesis
    using arc r c by (simp add: segmentLength_def)
qed

lemma contiguous_collapsed:
  "contiguous (seg # rest) \<Longrightarrow> \<forall>x \<in> set rest. start x = end' x \<Longrightarrow>
     end' (last (seg # rest)) = end' seg"
  by (induction rest arbitrary: seg) auto

lemma contiguous_tail: "contiguous (seg # rest) \<Longrightarrow> contiguous rest"
  by (cases rest) simp_all

lemma sum_segmentLength_nonneg: "0 \<le> sum_list (map segmentLength segs)"
  by (induction segs) (simp_all add: segmentLength_nonneg)

lemma sum_segmentLength_zero:
  "sum_list (map segmentLength segs) = 0 \<Longrightarrow> \<forall>x \<in> set segs. segmentLength x = 0"
proof (induction segs)
  case Nil
  then show ?case by simp
next
  case (Cons seg segs)
  have "0 \<le> segmentLength seg" "0 \<le> sum_list (map segmentLength segs)"
    by (rule segmentLength_nonneg, rule sum_segmentLength_nonneg)
  with Cons.prems have "segmentLength seg = 0" "sum_list (map segmentLength segs) = 0"
    by simp_all
  with Cons.IH show ?case by simp
qed

lemma walkAxis_total:
  "segs \<noteq> [] \<Longrightarrow> list_all nondegenerate segs \<Longrightarrow> contiguous segs \<Longrightarrow>
     walkAxis segs (sum_list (map segmentLength segs)) = Some (end' (last segs))"
proof (induction segs)
  case Nil
  then show ?case by blast
next
  case (Cons seg rest)
  from Cons.prems(2) have nd: "nondegenerate seg" and ndr: "list_all nondegenerate rest"
    by simp_all
  have total: "sum_list (map segmentLength (seg # rest))
      = segmentLength seg + sum_list (map segmentLength rest)"
    by simp
  show ?case
  proof (cases "sum_list (map segmentLength rest) = 0")
    case True
    then have "\<forall>x \<in> set rest. segmentLength x = 0"
      by (rule sum_segmentLength_zero)
    with ndr have "\<forall>x \<in> set rest. start x = end' x"
      using zero_length_segment by (simp add: list_all_iff)
    with Cons.prems(3) have e: "end' (last (seg # rest)) = end' seg"
      by (rule contiguous_collapsed)
    have t: "sum_list (map segmentLength (seg # rest)) = segmentLength seg"
      using True total by linarith
    show ?thesis
      unfolding e t by (rule walkAxis_end [OF nd])
  next
    case False
    with sum_segmentLength_nonneg [of rest] have pos: "0 < sum_list (map segmentLength rest)"
      by linarith
    from False have ne: "rest \<noteq> []" by auto
    have lt: "segmentLength seg < sum_list (map segmentLength (seg # rest))"
      using pos total by linarith
    have sub: "sum_list (map segmentLength (seg # rest)) - segmentLength seg
        = sum_list (map segmentLength rest)"
      using total by linarith
    have "walkAxis (seg # rest) (sum_list (map segmentLength (seg # rest)))
        = walkAxis rest (sum_list (map segmentLength rest))"
      using walkAxis_skip [OF nd lt, of rest] unfolding sub .
    also have "\<dots> = Some (end' (last rest))"
      using ne ndr contiguous_tail [OF Cons.prems(3)] by (rule Cons.IH)
    also have "last rest = last (seg # rest)"
      using ne by simp
    finally show ?thesis .
  qed
qed

text \<open>
  C1.  On a valid axis (not empty, contiguous, every arc non-degenerate) the position
  at length 0 is the start of the first segment, and the position at the total length
  is the end of the last segment.
\<close>

theorem getPositionAtLength_endpoints:
  assumes "validAxis axisData"
  shows "getPositionAtLength axisData 0 = start (hd axisData) \<and>
         getPositionAtLength axisData (computeAxisTotalLength axisData) = end' (last axisData)"
proof -
  from assms obtain seg rest where ax: "axisData = seg # rest"
    by (cases axisData) (auto simp add: validAxis_def)
  from assms have nd: "list_all nondegenerate axisData" and ct: "contiguous axisData"
    and ne: "axisData \<noteq> []"
    by (simp_all add: validAxis_def)
  have "nondegenerate seg" using nd ax by simp
  then have "walkAxis axisData 0 = Some (start seg)"
    unfolding ax by (rule walkAxis_start)
  then have first: "getPositionAtLength axisData 0 = start (hd axisData)"
    using ax by (simp add: getPositionAtLength_def)
  have "walkAxis axisData (computeAxisTotalLength axisData) = Some (end' (last axisData))"
    using walkAxis_total [OF ne nd ct] computeAxisTotalLength_sum [OF nd] by simp
  then have "getPositionAtLength axisData (computeAxisTotalLength axisData) = end' (last axisData)"
    using ne by (simp add: getPositionAtLength_def)
  with first show ?thesis by simp
qed

lemma validAxis_axisLA: "validAxis axisLA"
  by (simp add: validAxis_def nondegenerate_def calculateArcCenter_def fixture_defs)

lemma total_axisLA: "computeAxisTotalLength axisLA = 2 + pi"
  by (simp add: computeAxisTotalLength_def addSegmentLength_def fixture_defs)

theorem getPositionAtLength_endpoints_witness:
  "validAxis axisLA \<and>
   computeAxisTotalLength axisLA = 2 + pi \<and>
   getPositionAtLength axisLA 0 = pt 3 0 \<and>
   getPositionAtLength axisLA (2 + pi) = pt (- 1) 0"
  using getPositionAtLength_endpoints [OF validAxis_axisLA] validAxis_axisLA total_axisLA
  by (simp add: axisLA_def lineSeg_def arcSeg_def)

end
